theory Spec2Isabelle
  imports Complex_Main
begin

text \<open>
  A model of the client-side data layer of the risk analytics dashboard: the class
  \<open>RiskAnalyticsAPI\<close> (\<open>src/services/riskAnalyticsAPI.ts\<close>) with its expiring cache, its topic
  event bus and its simulated remote services, and the React hook \<open>useDashboardData\<close>
  (\<open>src/hooks/useDashboardData.ts\<close>) that loads and refreshes the dashboard snapshot.

  Conventions. Instants are the integer milliseconds of \<open>Date.now()\<close>. Every value the
  code takes from its environment (a clock reading, a rendered date string, a draw of
  \<open>Math.random()\<close>) is an explicit argument. JavaScript numbers that the code computes with
  are reals; the expiry instant of a cache entry is rounded to double precision as the
  code computes it. \<open>null\<close> and \<open>undefined\<close> are \<open>None\<close>. A thrown value is a value of type
  \<open>thrown\<close>, and a call that may throw returns a sum with the thrown value on the left.
\<close>

section \<open>Expiring cache (\<open>RiskAnalyticsAPI.setCache\<close>, \<open>getCache\<close>)\<close>

subsection \<open>Double-precision rounding\<close>

text \<open>
  JavaScript numbers are IEEE 754 doubles. The expiry instant of a cache entry is the one
  number of this development whose rounding decides a comparison, so the arithmetic that
  produces it is rounded here: \<open>to_double\<close> rounds a real number to the nearest number with a
  53-bit significand, a tie to the one whose significand is even. The range of exponents
  is not bounded (no overflow to infinity, no subnormal numbers).
\<close>

text \<open>The binary exponent of a positive number: \<open>2 ^ expo x \<le> x < 2 ^ (expo x + 1)\<close>.\<close>

definition expo :: "real \<Rightarrow> int" where
  "expo x = \<lfloor>log 2 x\<rfloor>"

text \<open>The distance between the doubles next to each other at a positive number.\<close>

definition spacing :: "real \<Rightarrow> real" where
  "spacing x = 2 powr of_int (expo x - 52)"

text \<open>Rounding to the nearest integer, a tie to the even one.\<close>

definition round_even :: "real \<Rightarrow> int" where
  "round_even y =
     (let f = \<lfloor>y\<rfloor>
      in if y - of_int f < 1 / 2 then f
         else if 1 / 2 < y - of_int f then f + 1
         else if even f then f else f + 1)"

definition to_double :: "real \<Rightarrow> real" where
  "to_double x =
     (if x = 0 then 0
      else sgn x * (of_int (round_even (\<bar>x\<bar> / spacing \<bar>x\<bar>)) * spacing \<bar>x\<bar>))"

subsection \<open>The cache\<close>

text \<open>
  The class keeps \<open>cache: Map<string, {data, timestamp, ttl}>\<close>. The expiry instant \<open>ttl\<close>
  is a double, a number of milliseconds.
\<close>

record 'v CacheEntry =
  data :: 'v
  timestamp :: int
  ttl :: real

type_synonym 'v cache = "string \<rightharpoonup> 'v CacheEntry"

text \<open>
  \<open>setCache(key, data, ttlSeconds)\<close>: \<open>ttl = Date.now() + (ttlSeconds * 1000)\<close>, then
  \<open>cache.set(key, {data, timestamp: Date.now(), ttl})\<close>. The product and the sum are each
  rounded to a double. Both clock reads happen inside one synchronous call and are given
  the same reading \<open>now\<close>.
\<close>

definition setCache :: "int \<Rightarrow> string \<Rightarrow> 'v \<Rightarrow> real \<Rightarrow> 'v cache \<Rightarrow> 'v cache" where
  "setCache now key d ttlSeconds c =
     (let t = to_double (real_of_int now + to_double (ttlSeconds * 1000))
      in c(key \<mapsto> \<lparr>data = d, timestamp = now, ttl = t\<rparr>))"

text \<open>
  The callback that \<open>setCache\<close> hands to \<open>setTimeout(..., ttlSeconds * 1000)\<close>. It runs at
  some later clock reading \<open>now\<close> and deletes the entry under the key only when
  \<open>Date.now() > cached.ttl\<close>.
\<close>

definition cleanupTimer :: "int \<Rightarrow> string \<Rightarrow> 'v cache \<Rightarrow> 'v cache" where
  "cleanupTimer now key c =
     (case c key of
        None \<Rightarrow> c
      | Some cached \<Rightarrow> if real_of_int now > ttl cached then c(key := None) else c)"

text \<open>
  \<open>getCache(key)\<close>: the value when an entry exists and \<open>Date.now() < cached.ttl\<close>;
  otherwise an existing entry is deleted and \<open>null\<close> is returned. The result is the pair
  of the returned value and the cache after the call.
\<close>

definition getCache :: "int \<Rightarrow> string \<Rightarrow> 'v cache \<Rightarrow> 'v option \<times> 'v cache" where
  "getCache now key c =
     (case c key of
        None \<Rightarrow> (None, c)
      | Some cached \<Rightarrow>
          if real_of_int now < ttl cached then (Some (data cached), c)
          else (None, c(key := None)))"

section \<open>Topic event bus (\<open>emitKafkaEvent\<close>, \<open>subscribeToKafkaTopic\<close>)\<close>

text \<open>Decimal rendering of a number inside a template literal.\<close>

fun digits :: "nat \<Rightarrow> string" where
  "digits n =
     (if n < 10 then [char_of (48 + n)]
      else digits (n div 10) @ [char_of (48 + n mod 10)])"

declare digits.simps [simp del]

definition decimal :: "int \<Rightarrow> string" where
  "decimal i = (if i < 0 then CHR ''-'' # digits (nat (- i)) else digits (nat i))"

text \<open>The interface \<open>KafkaMessage\<close>; its fields \<open>partition\<close>, \<open>timestamp\<close> and \<open>value\<close> carry
  the prefix \<open>msg_\<close> here.\<close>

record 'd KafkaMessage =
  topic :: string
  msg_partition :: nat
  offset :: int
  msg_timestamp :: string
  key :: string
  msg_value :: 'd

text \<open>
  A listener is a JavaScript function. What a listener can do to the bus while it runs is
  call the one public bus method, \<open>subscribeToKafkaTopic\<close> (\<open>emitKafkaEvent\<close> is private),
  and it can throw. A handler is therefore an identity together with the sequence of
  these actions that its body performs when called; \<open>Throw\<close> ends the body.
\<close>

datatype handler = Handler (hid: nat) (behaviour: "action list")
  and action = Subscribe string handler | Throw

text \<open>The field \<open>eventListeners: Map<string, Function[]>\<close>.\<close>

type_synonym listeners = "string \<rightharpoonup> handler list"

text \<open>
  \<open>subscribeToKafkaTopic(topic, callback)\<close>: creates the empty array under a topic that has
  none, then pushes the callback onto the array stored under the topic. The method returns
  \<open>void\<close>; the model returns the listeners after the call.
\<close>

definition subscribeToKafkaTopic :: "string \<Rightarrow> handler \<Rightarrow> listeners \<Rightarrow> listeners" where
  "subscribeToKafkaTopic t callback m =
     (let m1 = (if m t = None then m(t \<mapsto> []) else m)
      in case m1 t of
           None \<Rightarrow> m1
         | Some arr \<Rightarrow> m1(t \<mapsto> arr @ [callback]))"

text \<open>Running the body of a listener: the listeners afterwards, and whether it threw.\<close>

fun run_body :: "action list \<Rightarrow> listeners \<Rightarrow> listeners \<times> bool" where
  "run_body [] m = (m, False)"
| "run_body (Throw # rest) m = (m, True)"
| "run_body (Subscribe t h # rest) m = run_body rest (subscribeToKafkaTopic t h m)"

text \<open>
  \<open>listeners.forEach(listener => listener(message))\<close>. The array being traversed is the very
  array stored in \<open>eventListeners\<close> under the topic (no copy is taken), so a listener that
  subscribes to the same topic pushes onto it during the traversal; each element is
  therefore read from the current listeners. \<open>Array.prototype.forEach\<close> reads the length
  once, before the first call: \<open>forEach n k\<close> has \<open>n\<close> indices left to visit, starting at
  index \<open>k\<close>, and skips an index that is not present. An exception thrown by a listener
  leaves the traversal. The result is the listeners afterwards, the calls made in order
  (listener and argument, appended to the calls so far) and whether an exception left the
  traversal.
\<close>

fun forEach :: "nat \<Rightarrow> nat \<Rightarrow> string \<Rightarrow> 'm \<Rightarrow> listeners \<Rightarrow> (handler \<times> 'm) list
                \<Rightarrow> listeners \<times> (handler \<times> 'm) list \<times> bool" where
  "forEach 0 k t msg m calls = (m, calls, False)"
| "forEach (Suc n) k t msg m calls =
     (case m t of
        None \<Rightarrow> forEach n (Suc k) t msg m calls
      | Some arr \<Rightarrow>
          if k < length arr then
            (case run_body (behaviour (arr ! k)) m of
               (m', True) \<Rightarrow> (m', calls @ [(arr ! k, msg)], True)
             | (m', False) \<Rightarrow> forEach n (Suc k) t msg m' (calls @ [(arr ! k, msg)]))
          else forEach n (Suc k) t msg m calls)"

text \<open>
  The message built by \<open>emitKafkaEvent(topic, data)\<close>. \<open>part\<close> is the value of
  \<open>Math.floor(Math.random() * 4)\<close>, \<open>now\<close> the reading of \<open>Date.now()\<close> and \<open>isoNow\<close> the
  string \<open>new Date().toISOString()\<close>.
\<close>

definition mkMessage :: "string \<Rightarrow> nat \<Rightarrow> int \<Rightarrow> string \<Rightarrow> 'd \<Rightarrow> 'd KafkaMessage" where
  "mkMessage t part now isoNow d =
     \<lparr>topic = t, msg_partition = part, offset = now, msg_timestamp = isoNow,
      key = t @ ''_'' @ decimal now, msg_value = d\<rparr>"

text \<open>
  \<open>emitKafkaEvent(topic, data)\<close>: \<open>listeners = this.eventListeners.get(topic) || []\<close>, then
  the traversal. Under a topic without an entry the traversed array is a fresh empty one.
\<close>

definition emitKafkaEvent ::
  "nat \<Rightarrow> int \<Rightarrow> string \<Rightarrow> string \<Rightarrow> 'd \<Rightarrow> listeners
     \<Rightarrow> listeners \<times> (handler \<times> 'd KafkaMessage) list \<times> bool" where
  "emitKafkaEvent part now isoNow t d m =
     (let message = mkMessage t part now isoNow d
      in case m t of
           None \<Rightarrow> forEach 0 0 t message m []
         | Some arr \<Rightarrow> forEach (length arr) 0 t message m [])"

text \<open>The three components of the result of a publish.\<close>

definition listeners_after :: "listeners \<times> 'c \<times> bool \<Rightarrow> listeners" where
  "listeners_after r = fst r"

definition invoked :: "listeners \<times> 'c \<times> bool \<Rightarrow> 'c" where
  "invoked r = fst (snd r)"

definition raised :: "listeners \<times> 'c \<times> bool \<Rightarrow> bool" where
  "raised r = snd (snd r)"

text \<open>The handlers registered for a topic: \<open>this.eventListeners.get(topic) || []\<close>.\<close>

definition registered :: "listeners \<Rightarrow> string \<Rightarrow> handler list" where
  "registered m t = (case m t of None \<Rightarrow> [] | Some arr \<Rightarrow> arr)"

text \<open>A handler throws when its body reaches a \<open>Throw\<close>.\<close>

definition throws :: "handler \<Rightarrow> bool" where
  "throws h = (Throw \<in> set (behaviour h))"

text \<open>
  Specification function, not taken from the source: the initial segment of a list of
  handlers up to and including the first one that throws (the whole list when none does).
\<close>

fun upto_first_raise :: "handler list \<Rightarrow> handler list" where
  "upto_first_raise [] = []"
| "upto_first_raise (h # hs) = (if throws h then [h] else h # upto_first_raise hs)"

text \<open>
  The operations of the class that read or write \<open>eventListeners\<close> are these two and no
  other; a history of the bus is a list of calls to them.
\<close>

datatype 'd bus_call = Subscribe_call string handler | Emit_call nat int string string 'd

fun run_calls :: "'d bus_call list \<Rightarrow> listeners \<Rightarrow> listeners" where
  "run_calls [] m = m"
| "run_calls (Subscribe_call t h # cs) m = run_calls cs (subscribeToKafkaTopic t h m)"
| "run_calls (Emit_call part now isoNow t d # cs) m =
     run_calls cs (listeners_after (emitKafkaEvent part now isoNow t d m))"

section \<open>Source gateway (the simulated remote services of \<open>RiskAnalyticsAPI\<close>)\<close>

text \<open>
  What a \<open>throw\<close> carries: an \<open>Error\<close> object with its message, or some other value.
\<close>

datatype thrown = Error string | NonError

text \<open>
  The data that the services import from \<open>../data/marketData.json\<close>. Its contents are
  not fixed here: the data is an argument \<open>md\<close> of every service that reads it. The element
  types carry the fields that the interfaces of the dashboard component declare for the
  same data (\<open>VarHistoryData\<close>, \<open>SectorExposureData\<close>, \<open>RiskAlert\<close>, \<open>PortfolioAsset\<close>) together
  with the fields that the services and the hook write.
\<close>

record RiskMetrics =
  totalExposure :: real
  valueAtRisk :: real
  sharpeRatio :: real
  maxDrawdown :: real
  betaToMarket :: real
  portfolioValue :: real
  metrics_timestamp :: string
  marketStatus :: string

record VarHistoryItem =
  vh_time :: string
  var :: real
  expected :: real

record SectorExposureItem =
  sector :: string
  exposure :: real
  limit :: real
  color :: string
  lastUpdated :: string

record RiskAlert =
  alert_id :: string
  alert_timestamp :: string
  time :: string
  symbol :: string
  alert :: string
  severity :: string
  status :: string
  description :: string

record PortfolioAsset =
  asset :: string
  asset_value :: real
  percentage :: real

record marketData =
  realTimeMetrics :: RiskMetrics
  varHistoryData :: "VarHistoryItem list"
  md_sectorExposure :: "SectorExposureItem list"
  md_riskAlerts :: "RiskAlert list"
  md_portfolioBreakdown :: "PortfolioAsset list"
  md_systemHealth :: "(string \<times> string) list"

subsection \<open>\<open>fetchRealTimeMetrics\<close>\<close>

text \<open>
  A cache hit under \<open>'realtime_metrics'\<close> is returned as it is. On a miss the base metrics
  are varied by three draws \<open>r1\<close>, \<open>r2\<close>, \<open>r3\<close> of \<open>Math.random()\<close>, stamped with \<open>isoNow\<close>,
  stored for 5 seconds and returned. \<open>now\<close> is the clock at the lookup and \<open>later\<close> the clock
  at the store, after the simulated latency. The call never rejects.
\<close>

definition fetchRealTimeMetrics ::
  "marketData \<Rightarrow> real \<Rightarrow> real \<Rightarrow> real \<Rightarrow> string \<Rightarrow> int \<Rightarrow> int \<Rightarrow> RiskMetrics cache
     \<Rightarrow> RiskMetrics \<times> RiskMetrics cache" where
  "fetchRealTimeMetrics md r1 r2 r3 isoNow now later c =
     (case getCache now ''realtime_metrics'' c of
        (Some cached, c') \<Rightarrow> (cached, c')
      | (None, c') \<Rightarrow>
          (let baseMetrics = realTimeMetrics md;
               metrics = baseMetrics
                 \<lparr>valueAtRisk := valueAtRisk baseMetrics + (r1 - 0.5) * 100000,
                  sharpeRatio := sharpeRatio baseMetrics + (r2 - 0.5) * 0.1,
                  portfolioValue := portfolioValue baseMetrics + (r3 - 0.5) * 500000,
                  metrics_timestamp := isoNow\<rparr>
           in (metrics, setCache later ''realtime_metrics'' metrics 5 c')))"

subsection \<open>\<open>executeGraphQLQuery\<close>\<close>

text \<open>\<open>String.prototype.includes\<close>: the second string occurs in the first.\<close>

fun str_includes :: "string \<Rightarrow> string \<Rightarrow> bool" where
  "str_includes [] sub = (sub = [])"
| "str_includes (c # cs) sub = (take (length sub) (c # cs) = sub \<or> str_includes cs sub)"

text \<open>
  The result \<open>{ data: ... }\<close> of a query; \<open>data\<close> is \<open>null\<close> or an object that has the field
  \<open>varHistory\<close> or the field \<open>sectorExposure\<close>.
\<close>

record GraphQLData =
  gql_varHistory :: "VarHistoryItem list option"
  gql_sectorExposure :: "SectorExposureItem list option"

record GraphQLResult =
  gql_data :: "GraphQLData option"

text \<open>
  \<open>executeGraphQLQuery(query, variables)\<close> dispatches on the text of the query; \<open>variables\<close> is
  not read. \<open>rv i\<close> and \<open>rs i\<close> are the draws of \<open>Math.random()\<close> for the element at index
  \<open>i\<close>. The call never rejects.
\<close>

definition executeGraphQLQuery ::
  "marketData \<Rightarrow> (nat \<Rightarrow> real) \<Rightarrow> (nat \<Rightarrow> real) \<Rightarrow> string \<Rightarrow> string \<Rightarrow> GraphQLResult" where
  "executeGraphQLQuery md rv rs isoNow query =
     (if str_includes query ''varHistory'' then
        \<lparr>gql_data = Some
           \<lparr>gql_varHistory = Some
              (map (\<lambda>(i, item). item\<lparr>var := var item + (rv i - 0.5) * 50000\<rparr>)
                 (enumerate 0 (varHistoryData md))),
            gql_sectorExposure = None\<rparr>\<rparr>
      else if str_includes query ''sectorExposure'' then
        \<lparr>gql_data = Some
           \<lparr>gql_varHistory = None,
            gql_sectorExposure = Some
              (map (\<lambda>(i, s). s\<lparr>exposure := exposure s + (rs i - 0.5) * 2,
                                  lastUpdated := isoNow\<rparr>)
                 (enumerate 0 (md_sectorExposure md)))\<rparr>\<rparr>
      else \<lparr>gql_data = None\<rparr>)"

subsection \<open>\<open>invokeLambdaFunction\<close>\<close>

text \<open>The three shapes of \<open>body\<close> that the function returns.\<close>

datatype LambdaBody =
    RiskCalculation string real string
  | PortfolioAnalysis "PortfolioAsset list" "string list"
  | AlertProcessor "RiskAlert list" string

text \<open>The result \<open>{ statusCode, body }\<close>; a \<open>body\<close> that is missing is \<open>None\<close>.\<close>

record LambdaResult =
  statusCode :: nat
  body :: "LambdaBody option"

text \<open>
  \<open>invokeLambdaFunction(functionName, payload)\<close>: a \<open>switch\<close> on the name with three cases
  and a default that throws. \<open>rnd\<close> is the draw of \<open>Math.random()\<close> behind \<open>riskScore\<close>,
  \<open>isoNow\<close> the string \<open>new Date().toISOString()\<close>. Neither \<open>payload\<close> nor the URL looked up
  in \<open>API_CONFIG.LAMBDA_FUNCTION_URLS\<close> is read.
\<close>

definition invokeLambdaFunction ::
  "marketData \<Rightarrow> real \<Rightarrow> string \<Rightarrow> string \<Rightarrow> 'p \<Rightarrow> thrown + LambdaResult" where
  "invokeLambdaFunction md rnd isoNow functionName payload =
     (if functionName = ''RISK_CALCULATION'' then
        Inr \<lparr>statusCode = 200, body = Some (RiskCalculation isoNow (rnd * 100) ''HOLD'')\<rparr>
      else if functionName = ''PORTFOLIO_ANALYSIS'' then
        Inr \<lparr>statusCode = 200,
             body = Some (PortfolioAnalysis (md_portfolioBreakdown md)
                      [''Rebalance technology exposure'', ''Increase fixed income allocation''])\<rparr>
      else if functionName = ''ALERT_PROCESSOR'' then
        Inr \<lparr>statusCode = 200,
             body = Some (AlertProcessor
                      (filter (\<lambda>alert. status alert = ''ACTIVE'') (md_riskAlerts md)) isoNow)\<rparr>
      else Inl (Error (''Unknown Lambda function: '' @ functionName)))"

subsection \<open>\<open>healthCheck\<close> and \<open>pingService\<close>\<close>

record ServiceCheck =
  service :: string
  service_status :: string
  responseTime :: int
  endpoint :: string

record HealthReport =
  inherited :: "(string \<times> string) list"
  lastChecked :: string
  services :: "ServiceCheck list"

text \<open>\<open>pingService\<close>; \<open>up\<close> and \<open>rt\<close> are the two draws of \<open>Math.random()\<close> of the result.\<close>

definition pingService :: "real \<Rightarrow> real \<Rightarrow> string \<Rightarrow> string \<Rightarrow> ServiceCheck" where
  "pingService up rt serviceName ep =
     \<lparr>service = serviceName,
      service_status = (if up > 0.05 then ''UP'' else ''DOWN''),
      responseTime = \<lfloor>rt * 20 + 5\<rfloor>,
      endpoint = ep\<rparr>"

text \<open>\<open>healthCheck\<close>: four pings joined, wrapped with the stored health fields.\<close>

definition healthCheck :: "marketData \<Rightarrow> (nat \<Rightarrow> real) \<Rightarrow> (nat \<Rightarrow> real) \<Rightarrow> string \<Rightarrow> HealthReport" where
  "healthCheck md up rt isoNow =
     \<lparr>inherited = md_systemHealth md,
      lastChecked = isoNow,
      services =
        [pingService (up 0) (rt 0) ''FastAPI'' ''https://risk-api.fintech-platform.com/health'',
         pingService (up 1) (rt 1) ''GraphQL'' ''https://graphql.fintech-platform.com/health'',
         pingService (up 2) (rt 2) ''TimescaleDB'' ''timescale-cluster.fintech-platform.com:5432'',
         pingService (up 3) (rt 3) ''Redis'' ''redis-cluster.fintech-platform.com:6379'']\<rparr>"

section \<open>Aggregation (\<open>getAllDashboardData\<close>) and the hook \<open>useDashboardData\<close>\<close>

text \<open>The interface \<open>DashboardData\<close>.\<close>

record DashboardData =
  metrics :: RiskMetrics
  varHistory :: "VarHistoryItem list"
  sectorExposure :: "SectorExposureItem list"
  riskAlerts :: "RiskAlert list"
  portfolioBreakdown :: "PortfolioAsset list"
  systemHealth :: HealthReport

text \<open>
  A settled promise: rejected at an instant with a thrown value, or fulfilled with a value.
\<close>

type_synonym 'a promise = "(int \<times> thrown) + 'a"

text \<open>
  \<open>Promise.all\<close> of two settled promises, the building block of the six-fold join: the
  join is fulfilled with both values when both are fulfilled, and rejected with the
  rejection that happened first otherwise (of two rejections at the same instant the one
  of the earlier argument).
\<close>

fun join :: "'a promise \<Rightarrow> 'b promise \<Rightarrow> ('a \<times> 'b) promise" where
  "join (Inl (t1, e1)) (Inl (t2, e2)) = Inl (if t2 < t1 then (t2, e2) else (t1, e1))"
| "join (Inl r) (Inr b) = Inl r"
| "join (Inr a) (Inl r) = Inl r"
| "join (Inr a) (Inr b) = Inr (a, b)"

text \<open>\<open>x || []\<close> for an array \<open>x\<close> that may be missing (every array is truthy).\<close>

definition or_empty :: "'a list option \<Rightarrow> 'a list" where
  "or_empty x = (case x of None \<Rightarrow> [] | Some xs \<Rightarrow> xs)"

text \<open>The optional chains \<open>r.data?.varHistory\<close>, \<open>r.data?.sectorExposure\<close>,
  \<open>r.body?.alerts\<close> and \<open>r.body?.analysis\<close>.\<close>

definition data_varHistory :: "GraphQLResult \<Rightarrow> VarHistoryItem list option" where
  "data_varHistory r = (case gql_data r of None \<Rightarrow> None | Some d \<Rightarrow> gql_varHistory d)"

definition data_sectorExposure :: "GraphQLResult \<Rightarrow> SectorExposureItem list option" where
  "data_sectorExposure r = (case gql_data r of None \<Rightarrow> None | Some d \<Rightarrow> gql_sectorExposure d)"

definition body_alerts :: "LambdaResult \<Rightarrow> RiskAlert list option" where
  "body_alerts r =
     (case body r of
        Some (AlertProcessor al processedAt) \<Rightarrow> Some al
      | _ \<Rightarrow> None)"

definition body_analysis :: "LambdaResult \<Rightarrow> PortfolioAsset list option" where
  "body_analysis r =
     (case body r of
        Some (PortfolioAnalysis an suggestions) \<Rightarrow> Some an
      | _ \<Rightarrow> None)"

text \<open>
  \<open>getAllDashboardData\<close>: awaits \<open>Promise.all\<close> of six calls and assembles the snapshot from
  the six values; a rejection of the join is logged and thrown again. The arguments are
  the six promises as they settle, in the order of the array: \<open>fetchRealTimeMetrics()\<close>, the
  two \<open>executeGraphQLQuery\<close> calls (VaR history, sector exposure), the two
  \<open>invokeLambdaFunction\<close> calls (\<open>ALERT_PROCESSOR\<close>, \<open>PORTFOLIO_ANALYSIS\<close>) and \<open>healthCheck()\<close>.
\<close>

definition getAllDashboardData ::
  "RiskMetrics promise \<Rightarrow> GraphQLResult promise \<Rightarrow> GraphQLResult promise
     \<Rightarrow> LambdaResult promise \<Rightarrow> LambdaResult promise \<Rightarrow> HealthReport promise
     \<Rightarrow> thrown + DashboardData" where
  "getAllDashboardData p1 p2 p3 p4 p5 p6 =
     (case join p1 (join p2 (join p3 (join p4 (join p5 p6)))) of
        Inl (t, err) \<Rightarrow> Inl err
      | Inr (m, varData, sectorData, alerts, portfolio, health) \<Rightarrow>
          Inr \<lparr>metrics = m,
               varHistory = or_empty (data_varHistory varData),
               sectorExposure = or_empty (data_sectorExposure sectorData),
               riskAlerts = or_empty (body_alerts alerts),
               portfolioBreakdown = or_empty (body_analysis portfolio),
               systemHealth = health\<rparr>)"

text \<open>The state variables of the hook, with their initial values.\<close>

record hook_state =
  data :: "DashboardData option"
  loading :: bool
  error :: "string option"
  lastUpdated :: "int option"
  isRealTimeConnected :: bool

definition initial_state :: hook_state where
  "initial_state =
     \<lparr>data = None, loading = True, error = None, lastUpdated = None,
      isRealTimeConnected = False\<rparr>"

text \<open>
  \<open>loadData\<close>, given the settled result \<open>res\<close> of \<open>riskAPI.getAllDashboardData()\<close> and the clock
  \<open>now\<close> behind \<open>new Date()\<close>: \<open>setError(null)\<close>; then the \<open>try\<close> branch or the \<open>catch\<close> branch;
  then \<open>setLoading(false)\<close> in \<open>finally\<close>.
\<close>

definition loadData :: "thrown + DashboardData \<Rightarrow> int \<Rightarrow> hook_state \<Rightarrow> hook_state" where
  "loadData res now st =
     (let st1 = st\<lparr>error := None\<rparr>;
          st2 = (case res of
                   Inr dashboardData \<Rightarrow>
                     st1\<lparr>data := Some dashboardData, lastUpdated := Some now,
                         isRealTimeConnected := True\<rparr>
                 | Inl err \<Rightarrow>
                     st1\<lparr>error := Some (case err of Error msg \<Rightarrow> msg
                                                | NonError \<Rightarrow> ''Failed to load data''),
                         isRealTimeConnected := False\<rparr>)
      in st2\<lparr>loading := False\<rparr>)"

text \<open>The value of a \<open>risk_alerts\<close> message as the listener of the hook reads it.\<close>

record AlertEvent =
  ev_symbol :: string
  alertType :: string
  ev_severity :: string
  ev_description :: string

text \<open>
  The listener that the hook subscribes to \<open>'risk_alerts'\<close>, as a transformer of the state
  of the hook: \<open>setData\<close> with an updater that leaves a \<open>null\<close> snapshot alone and otherwise
  puts the new alert in front of \<open>prevData.riskAlerts.slice(0, 9)\<close>. \<open>now\<close>, \<open>isoNow\<close> and
  \<open>clock\<close> are \<open>Date.now()\<close>, \<open>new Date().toISOString()\<close> and
  \<open>new Date().toLocaleTimeString(...)\<close>.
\<close>

definition onRiskAlert ::
  "int \<Rightarrow> string \<Rightarrow> string \<Rightarrow> AlertEvent KafkaMessage \<Rightarrow> hook_state \<Rightarrow> hook_state" where
  "onRiskAlert now isoNow clock message st =
     st\<lparr>data :=
       (case data st of
          None \<Rightarrow> None
        | Some prevData \<Rightarrow>
            (let newAlert =
                   \<lparr>alert_id = ''ALERT_'' @ decimal now,
                    alert_timestamp = isoNow,
                    time = clock,
                    symbol = ev_symbol (msg_value message),
                    alert = alertType (msg_value message),
                    severity = ev_severity (msg_value message),
                    status = ''ACTIVE'',
                    description = ev_description (msg_value message)\<rparr>
             in Some (prevData\<lparr>riskAlerts := newAlert # take 9 (riskAlerts prevData)\<rparr>)))\<rparr>"

text \<open>A burst of alert messages, each with the three clock values of its delivery.\<close>

fun onRiskAlerts ::
  "(int \<times> string \<times> string \<times> AlertEvent KafkaMessage) list \<Rightarrow> hook_state \<Rightarrow> hook_state" where
  "onRiskAlerts [] st = st"
| "onRiskAlerts ((now, isoNow, clock, message) # evs) st =
     onRiskAlerts evs (onRiskAlert now isoNow clock message st)"

text \<open>The length of the alert list of a state (0 while there is no snapshot).\<close>

definition alert_count :: "hook_state \<Rightarrow> nat" where
  "alert_count st = (case data st of None \<Rightarrow> 0 | Some d \<Rightarrow> length (riskAlerts d))"

text \<open>
  One run of the callback of \<open>metricsInterval\<close>, given the settled result \<open>res\<close> of
  \<open>riskAPI.fetchRealTimeMetrics()\<close>: on a value the metrics of an existing snapshot are
  replaced and \<open>lastUpdated\<close> is set; on a rejection only a warning is logged.
\<close>

definition metricsTick :: "thrown + RiskMetrics \<Rightarrow> int \<Rightarrow> hook_state \<Rightarrow> hook_state" where
  "metricsTick res now st =
     (case res of
        Inr newMetrics \<Rightarrow>
          st\<lparr>data := (case data st of
                         None \<Rightarrow> None
                       | Some prevData \<Rightarrow> Some (prevData\<lparr>metrics := newMetrics\<rparr>)),
             lastUpdated := Some now\<rparr>
      | Inl err \<Rightarrow> st)"

text \<open>The rejection of a settled promise, if it is rejected.\<close>

definition rejection :: "'a promise \<Rightarrow> (int \<times> thrown) option" where
  "rejection p = (case p of Inl r \<Rightarrow> Some r | Inr v \<Rightarrow> None)"

section \<open>Sample data\<close>

text \<open>
  The constant \<open>mockData\<close> of the dashboard component, in the shape of \<open>marketData\<close>; a field
  that the constant does not have is the empty string or the empty list.
\<close>

definition mockData :: marketData where
  "mockData =
     \<lparr>realTimeMetrics =
        \<lparr>totalExposure = 125800000, valueAtRisk = 2410000, sharpeRatio = 1.87,
         maxDrawdown = 4.2, betaToMarket = 0.95, portfolioValue = 50200000,
         metrics_timestamp = [], marketStatus = []\<rparr>,
      varHistoryData =
        [\<lparr>vh_time = ''09:30'', var = 2100000, expected = 2300000\<rparr>,
         \<lparr>vh_time = ''10:00'', var = 2300000, expected = 2400000\<rparr>,
         \<lparr>vh_time = ''10:30'', var = 2800000, expected = 2500000\<rparr>,
         \<lparr>vh_time = ''11:00'', var = 2500000, expected = 2400000\<rparr>,
         \<lparr>vh_time = ''11:30'', var = 2200000, expected = 2300000\<rparr>,
         \<lparr>vh_time = ''12:00'', var = 2400000, expected = 2400000\<rparr>,
         \<lparr>vh_time = ''12:30'', var = 2600000, expected = 2500000\<rparr>,
         \<lparr>vh_time = ''13:00'', var = 2400000, expected = 2400000\<rparr>],
      md_sectorExposure =
        [\<lparr>sector = ''Technology'', exposure = 35.2, limit = 40.0, color = ''#00D4FF'',
          lastUpdated = []\<rparr>,
         \<lparr>sector = ''Healthcare'', exposure = 22.1, limit = 25.0, color = ''#00FF88'',
          lastUpdated = []\<rparr>,
         \<lparr>sector = ''Financial'', exposure = 18.3, limit = 20.0, color = ''#FFD700'',
          lastUpdated = []\<rparr>,
         \<lparr>sector = ''Energy'', exposure = 12.4, limit = 15.0, color = ''#FF6B6B'',
          lastUpdated = []\<rparr>,
         \<lparr>sector = ''Consumer'', exposure = 12.0, limit = 15.0, color = ''#A78BFA'',
          lastUpdated = []\<rparr>],
      md_riskAlerts =
        [\<lparr>alert_id = [], alert_timestamp = [], time = ''13:45:23'', symbol = ''TSLA'',
          alert = ''Position Limit Breach'', severity = ''HIGH'', status = ''ACTIVE'',
          description = []\<rparr>,
         \<lparr>alert_id = [], alert_timestamp = [], time = ''13:42:18'', symbol = ''NVDA'',
          alert = ''Volatility Spike'', severity = ''MEDIUM'', status = ''RESOLVED'',
          description = []\<rparr>,
         \<lparr>alert_id = [], alert_timestamp = [], time = ''13:38:45'', symbol = ''AMZN'',
          alert = ''Correlation Alert'', severity = ''LOW'', status = ''MONITORING'',
          description = []\<rparr>,
         \<lparr>alert_id = [], alert_timestamp = [], time = ''13:35:12'', symbol = ''GOOGL'',
          alert = ''Liquidity Warning'', severity = ''MEDIUM'', status = ''ACTIVE'',
          description = []\<rparr>],
      md_portfolioBreakdown =
        [\<lparr>asset = ''Equities'', asset_value = 35200000, percentage = 70.1\<rparr>,
         \<lparr>asset = ''Fixed Income'', asset_value = 8500000, percentage = 16.9\<rparr>,
         \<lparr>asset = ''Derivatives'', asset_value = 4200000, percentage = 8.4\<rparr>,
         \<lparr>asset = ''Cash'', asset_value = 2300000, percentage = 4.6\<rparr>],
      md_systemHealth = []\<rparr>"

section \<open>Properties of double-precision rounding\<close>

lemma expo_bounds:
  assumes "0 < x"
  shows "2 powr of_int (expo x) \<le> x" and "x < 2 powr of_int (expo x + 1)"
  using floor_log_eq_powr_iff [of x 2 "expo x"] assms by (simp_all add: expo_def)

lemma expo_eq:
  "0 < x \<Longrightarrow> 2 powr of_int k \<le> x \<Longrightarrow> x < 2 powr of_int (k + 1) \<Longrightarrow> expo x = k"
  using floor_log_eq_powr_iff [of x 2 k] by (simp add: expo_def)

lemma spacing_pos: "0 < spacing x"
  by (simp add: spacing_def)

lemma round_even_lower: "of_int \<lfloor>y\<rfloor> \<le> (of_int (round_even y) :: real)"
  by (simp add: round_even_def Let_def)

lemma round_even_upper: "(of_int (round_even y) :: real) \<le> of_int \<lceil>y\<rceil>"
proof -
  have "y \<noteq> of_int \<lfloor>y\<rfloor> \<Longrightarrow> \<lceil>y\<rceil> = \<lfloor>y\<rfloor> + 1"
    by (metis ceiling_altdef)
  moreover have "y = of_int \<lfloor>y\<rfloor> \<Longrightarrow> round_even y = \<lfloor>y\<rfloor>"
    by (simp add: round_even_def Let_def)
  moreover have "round_even y \<le> \<lfloor>y\<rfloor> + 1"
    by (simp add: round_even_def Let_def)
  ultimately show ?thesis
    by (cases "y = of_int \<lfloor>y\<rfloor>") (simp_all add: ceiling_altdef)
qed

lemma to_double_pos:
  "0 < x \<Longrightarrow> to_double x = of_int (round_even (x / spacing x)) * spacing x"
  by (simp add: to_double_def)

text \<open>
  A number \<open>N * 2 ^ j\<close> with \<open>0 < N \<le> 2 ^ 53\<close> that is at least \<open>2 ^ e\<close> is a multiple of
  \<open>2 ^ (e - 52)\<close>.
\<close>

lemma multiple_of_spacing:
  assumes N: "0 < N" "N \<le> 2 ^ 53" and ge: "2 powr of_int e \<le> real_of_int N * 2 powr of_int j"
  shows "\<exists>M::int. real_of_int N * 2 powr of_int j = real_of_int M * 2 powr of_int (e - 52)"
proof (cases "e - 52 \<le> j")
  case True
  then obtain n where n: "j = (e - 52) + int n"
    by (metis zle_iff_zadd)
  have "(2::real) powr of_int j = 2 powr of_int (e - 52) * 2 ^ n"
    unfolding n by (simp add: powr_add powr_realpow)
  then have "real_of_int N * 2 powr of_int j = real_of_int (N * 2 ^ n) * 2 powr of_int (e - 52)"
    by simp
  then show ?thesis by blast
next
  case False
  then have j: "j \<le> e - 53" by simp
  have "real_of_int N \<le> 2 ^ 53"
    using N(2) by (metis of_int_le_iff of_int_numeral of_int_power)
  then have "real_of_int N * 2 powr of_int j \<le> (2 ^ 53 :: real) * 2 powr of_int j"
    by (intro mult_right_mono) simp_all
  also have "\<dots> = 2 powr of_int (j + 53)"
    by (simp add: powr_add)
  also have "\<dots> \<le> 2 powr of_int e"
    using j by simp
  finally have eq: "real_of_int N * 2 powr of_int j = 2 powr of_int e"
    using ge by simp
  have "(2::real) powr of_int e = of_int (2 ^ 52) * 2 powr of_int (e - 52)"
    by (simp add: powr_diff)
  with eq show ?thesis by metis
qed


lemma to_double_ge_power:
  assumes "0 < x"
  shows "2 powr of_int (expo x) \<le> to_double x"
proof -
  let ?u = "spacing x"
  have u: "0 < ?u" by (rule spacing_pos)
  have e: "(2::real) powr of_int (expo x) = 2 ^ 52 * ?u"
    by (simp add: spacing_def powr_diff)
  with expo_bounds(1) [OF assms] have "2 ^ 52 * ?u \<le> x" by simp
  with u have "2 ^ 52 \<le> x / ?u" by (simp add: pos_le_divide_eq)
  then have "(2 ^ 52 :: int) \<le> \<lfloor>x / ?u\<rfloor>" by (simp add: le_floor_iff)
  then have "(2 ^ 52 :: real) \<le> of_int \<lfloor>x / ?u\<rfloor>"
    by (metis of_int_le_iff of_int_numeral of_int_power)
  also have "\<dots> \<le> of_int (round_even (x / ?u))" by (rule round_even_lower)
  finally have "2 ^ 52 * ?u \<le> of_int (round_even (x / ?u)) * ?u"
    using u by (simp add: mult_right_mono)
  then show ?thesis by (simp add: e to_double_pos [OF assms])
qed

lemma to_double_le_power:
  assumes "0 < x"
  shows "to_double x \<le> 2 powr of_int (expo x + 1)"
proof -
  let ?u = "spacing x"
  have u: "0 < ?u" by (rule spacing_pos)
  have e: "(2::real) powr of_int (expo x + 1) = 2 ^ 53 * ?u"
    by (simp add: spacing_def powr_diff powr_add)
  with expo_bounds(2) [OF assms] have "x < 2 ^ 53 * ?u" by simp
  with u have "x / ?u \<le> 2 ^ 53" by (simp add: pos_divide_le_eq)
  then have "\<lceil>x / ?u\<rceil> \<le> (2 ^ 53 :: int)" by (simp add: ceiling_le_iff)
  then have "real_of_int \<lceil>x / ?u\<rceil> \<le> 2 ^ 53"
    by (metis of_int_le_iff of_int_numeral of_int_power)
  with round_even_upper [of "x / ?u"] have "real_of_int (round_even (x / ?u)) \<le> 2 ^ 53"
    by linarith
  then have "of_int (round_even (x / ?u)) * ?u \<le> 2 ^ 53 * ?u"
    using u by (intro mult_right_mono) simp_all
  then show ?thesis unfolding e to_double_pos [OF assms] .
qed

lemma to_double_lower:
  assumes x: "0 < x" and N: "0 < N" "N \<le> 2 ^ 53"
    and le: "real_of_int N * 2 powr of_int j \<le> x"
  shows "real_of_int N * 2 powr of_int j \<le> to_double x"
proof (cases "real_of_int N * 2 powr of_int j \<le> 2 powr of_int (expo x)")
  case True
  with to_double_ge_power [OF x] show ?thesis by linarith
next
  case False
  then have "2 powr of_int (expo x) \<le> real_of_int N * 2 powr of_int j" by simp
  from multiple_of_spacing [OF N this] obtain M
    where M: "real_of_int N * 2 powr of_int j = real_of_int M * spacing x"
    by (auto simp: spacing_def)
  let ?u = "spacing x"
  have u: "0 < ?u" by (rule spacing_pos)
  from le M have "real_of_int M * ?u \<le> x" by simp
  with u have "real_of_int M \<le> x / ?u" by (simp add: pos_le_divide_eq)
  then have "M \<le> \<lfloor>x / ?u\<rfloor>" by (simp add: le_floor_iff)
  then have "real_of_int M \<le> of_int \<lfloor>x / ?u\<rfloor>" by simp
  also have "\<dots> \<le> of_int (round_even (x / ?u))" by (rule round_even_lower)
  finally have "real_of_int M * ?u \<le> of_int (round_even (x / ?u)) * ?u"
    using u by (simp add: mult_right_mono)
  then show ?thesis by (simp add: M to_double_pos [OF x])
qed

lemma to_double_upper:
  assumes x: "0 < x" and N: "0 < N" "N \<le> 2 ^ 53"
    and le: "x \<le> real_of_int N * 2 powr of_int j"
  shows "to_double x \<le> real_of_int N * 2 powr of_int j"
proof (cases "2 powr of_int (expo x + 1) \<le> real_of_int N * 2 powr of_int j")
  case True
  with to_double_le_power [OF x] show ?thesis by linarith
next
  case False
  from expo_bounds(1) [OF x] le
  have "2 powr of_int (expo x) \<le> real_of_int N * 2 powr of_int j" by linarith
  from multiple_of_spacing [OF N this] obtain M
    where M: "real_of_int N * 2 powr of_int j = real_of_int M * spacing x"
    by (auto simp: spacing_def)
  let ?u = "spacing x"
  have u: "0 < ?u" by (rule spacing_pos)
  from le M have "x \<le> real_of_int M * ?u" by simp
  with u have "x / ?u \<le> real_of_int M" by (simp add: pos_divide_le_eq)
  then have "\<lceil>x / ?u\<rceil> \<le> M" by (simp add: ceiling_le_iff)
  then have "real_of_int \<lceil>x / ?u\<rceil> \<le> of_int M" by simp
  with round_even_upper [of "x / ?u"] have "real_of_int (round_even (x / ?u)) \<le> of_int M"
    by linarith
  then have "of_int (round_even (x / ?u)) * ?u \<le> real_of_int M * ?u"
    using u by (simp add: mult_right_mono)
  then show ?thesis by (simp add: M to_double_pos [OF x])
qed

lemma to_double_int:
  "0 < n \<Longrightarrow> n \<le> 2 ^ 53 \<Longrightarrow> to_double (real_of_int n) = real_of_int n"
  using to_double_lower [of "real_of_int n" n 0] to_double_upper [of "real_of_int n" n 0]
  by simp

section \<open>Properties of the expiring cache\<close>

lemma expo_clock:
  assumes "0 < now" "now < 2 ^ 53"
  shows "expo (real_of_int now) \<le> 52"
proof -
  let ?e = "expo (real_of_int now)"
  have one: "(1::real) < 2" by simp
  from assms(2) have "real_of_int now < 2 ^ 53"
    by (metis of_int_less_iff of_int_numeral of_int_power)
  also have "(2 ^ 53 :: real) = 2 powr real_of_int 53" by simp
  finally have "real_of_int now < 2 powr real_of_int 53" .
  with expo_bounds(1) [of "real_of_int now"] assms(1)
  have "(2::real) powr real_of_int ?e < 2 powr real_of_int 53" by simp
  then have "real_of_int ?e < real_of_int 53"
    by (simp only: powr_less_cancel_iff [OF one])
  then show ?thesis by linarith
qed

lemma spacing_clock_le_1:
  assumes "0 < now" "now < 2 ^ 53"
  shows "spacing (real_of_int now) \<le> 1"
proof -
  from expo_clock [OF assms] have "real_of_int (expo (real_of_int now) - 52) \<le> 0" by simp
  then have "(2::real) powr of_int (expo (real_of_int now) - 52) \<le> 2 powr 0"
    by (subst powr_le_cancel_iff) simp_all
  then show ?thesis by (simp add: spacing_def)
qed

lemma clock_next_double:
  assumes "0 < now" "now < 2 ^ 53"
  shows "\<exists>M. 0 < M \<and> M \<le> 2 ^ 53
           \<and> real_of_int now + spacing (real_of_int now)
               = real_of_int M * 2 powr of_int (expo (real_of_int now) - 52)"
proof -
  let ?x = "real_of_int now"
  let ?e = "expo ?x"
  let ?u = "spacing ?x"
  have x: "0 < ?x" using assms(1) by simp
  have u: "0 < ?u" by (rule spacing_pos)
  from expo_clock [OF assms] obtain n where n: "52 = ?e + int n"
    by (metis zle_iff_zadd)
  then have en: "?e - 52 = - int n" by simp
  have un: "?u * 2 ^ n = 1"
    unfolding spacing_def en by (simp add: powr_minus powr_realpow)
  have now: "?x = real_of_int (now * 2 ^ n) * ?u"
    using un by (simp add: mult.assoc mult.commute [of "2 ^ n"])
  have "?x < 2 powr of_int (?e + 1)" by (rule expo_bounds(2) [OF x])
  also have "\<dots> = 2 ^ 53 * ?u" by (simp add: spacing_def powr_diff powr_add)
  finally have lt0: "?x < 2 ^ 53 * ?u" .
  have "real_of_int (now * 2 ^ n) * ?u < 2 ^ 53 * ?u"
    using lt0 unfolding now [symmetric] .
  with u have "real_of_int (now * 2 ^ n) < 2 ^ 53" by simp
  then have lt: "now * 2 ^ n < 2 ^ 53"
    by (metis of_int_less_iff of_int_numeral of_int_power)
  have pos: "0 < now * 2 ^ n" using assms(1) by simp
  have "?x + ?u = real_of_int (now * 2 ^ n + 1) * ?u"
    using now by (simp add: algebra_simps)
  with lt pos show ?thesis
    by (intro exI [of _ "now * 2 ^ n + 1"]) (simp add: spacing_def)
qed

lemma stored_ttl_after_now:
  assumes now: "0 < now" "now < 2 ^ 53" and t: "0 < t"
    and sp: "spacing (real_of_int now) \<le> t * 1000"
  shows "real_of_int now < to_double (real_of_int now + to_double (t * 1000))"
proof -
  let ?x = "real_of_int now"
  let ?u = "spacing ?x"
  have u: "0 < ?u" by (rule spacing_pos)
  from t have p0: "0 < t * 1000" by simp
  have "real_of_int 1 * 2 powr of_int (expo ?x - 52) \<le> to_double (t * 1000)"
    using sp by (intro to_double_lower [OF p0]) (simp_all add: spacing_def)
  then have p: "?u \<le> to_double (t * 1000)" by (simp add: spacing_def)
  from clock_next_double [OF now] obtain M where M: "0 < M" "M \<le> 2 ^ 53"
    and eq: "?x + ?u = real_of_int M * 2 powr of_int (expo ?x - 52)" by blast
  have x0: "0 < ?x + to_double (t * 1000)" using now(1) p u by linarith
  have "real_of_int M * 2 powr of_int (expo ?x - 52) \<le> ?x + to_double (t * 1000)"
    using p eq by linarith
  from to_double_lower [OF x0 M this] eq
  have "?x + ?u \<le> to_double (?x + to_double (t * 1000))" by simp
  with u show ?thesis by linarith
qed

lemma stored_ttl_expired:
  assumes now: "0 < now" and t: "0 < t" and now': "now' < 2 ^ 53"
    and late: "real_of_int now + t * 1000 \<le> real_of_int now'"
  shows "to_double (real_of_int now + to_double (t * 1000)) \<le> real_of_int now'"
proof -
  from t have p0: "0 < t * 1000" by simp
  from late p0 have d: "0 < now' - now" by linarith
  from d now now' have d53: "now' - now \<le> 2 ^ 53" by linarith
  have "t * 1000 \<le> real_of_int (now' - now) * 2 powr of_int 0" using late by simp
  from to_double_upper [OF p0 d d53 this]
  have p: "to_double (t * 1000) \<le> real_of_int now' - real_of_int now" by simp
  have "0 < to_double (t * 1000)"
    using to_double_ge_power [OF p0] by (smt (verit) powr_gt_zero)
  with now have x0: "0 < real_of_int now + to_double (t * 1000)" by simp
  from now d have n0: "0 < now'" by linarith
  from now' have n53: "now' \<le> 2 ^ 53" by simp
  have "real_of_int now + to_double (t * 1000) \<le> real_of_int now' * 2 powr of_int 0"
    using p by simp
  from to_double_upper [OF x0 n0 n53 this] show ?thesis by simp
qed


lemma getCache_stored:
  "getCache now' K (setCache now K v t c) =
     (if real_of_int now' < to_double (real_of_int now + to_double (t * 1000))
      then (Some v, setCache now K v t c)
      else (None, (setCache now K v t c)(K := None)))"
  by (simp add: getCache_def setCache_def)

lemma getCache_cleaned_expired:
  "to_double (real_of_int now + to_double (t * 1000)) \<le> real_of_int now' \<Longrightarrow>
   getCache now' K (cleanupTimer fired K (setCache now K v t c))
     = (None, (setCache now K v t c)(K := None))"
  by (simp add: getCache_def setCache_def cleanupTimer_def)

text \<open>
  Claim C1, as the code has it. For every key \<open>K\<close>, value \<open>v\<close>, TTL \<open>t > 0\<close> (seconds) and
  clock reading \<open>now\<close> of the store with \<open>0 < now < 2 ^ 53\<close> (every value of \<open>Date.now()\<close> is
  below \<open>2 ^ 53\<close>): the distance between neighbouring doubles at \<open>now\<close> is at most 1 ms; if
  the TTL in milliseconds, \<open>t * 1000\<close>, is at least that distance, a fetch of \<open>K\<close> at the
  clock reading of \<open>store(K, v, t)\<close> returns \<open>v\<close> and leaves the cache as stored; and a fetch
  at any clock reading below \<open>2 ^ 53\<close> that is at least \<open>t\<close> seconds later returns absent
  and the cache after that fetch has no entry under \<open>K\<close>, whether or not the deferred
  cleanup of the store has run in between.
\<close>

theorem cache_store_then_fetch:
  assumes "0 < now" and "now < 2 ^ 53" and "0 < t"
  shows "spacing (real_of_int now) \<le> 1
       \<and> (spacing (real_of_int now) \<le> t * 1000 \<longrightarrow>
            getCache now K (setCache now K v t c) = (Some v, setCache now K v t c))
       \<and> (\<forall>now'. now' < 2 ^ 53 \<and> real_of_int now + t * 1000 \<le> real_of_int now' \<longrightarrow>
            fst (getCache now' K (setCache now K v t c)) = None
          \<and> snd (getCache now' K (setCache now K v t c)) K = None
          \<and> (\<forall>fired. fst (getCache now' K (cleanupTimer fired K (setCache now K v t c))) = None
                    \<and> snd (getCache now' K (cleanupTimer fired K (setCache now K v t c))) K = None))"
proof (intro conjI allI impI)
  show "spacing (real_of_int now) \<le> 1"
    using assms(1,2) by (rule spacing_clock_le_1)
next
  assume "spacing (real_of_int now) \<le> t * 1000"
  with assms have "real_of_int now < to_double (real_of_int now + to_double (t * 1000))"
    by (rule stored_ttl_after_now)
  then show "getCache now K (setCache now K v t c) = (Some v, setCache now K v t c)"
    by (simp add: getCache_stored)
next
  fix now'
  assume "now' < 2 ^ 53 \<and> real_of_int now + t * 1000 \<le> real_of_int now'"
  then have e: "to_double (real_of_int now + to_double (t * 1000)) \<le> real_of_int now'"
    using assms(1,3) by (intro stored_ttl_expired) simp_all
  then have ne: "\<not> real_of_int now' < to_double (real_of_int now + to_double (t * 1000))"
    by simp
  show "fst (getCache now' K (setCache now K v t c)) = None"
    by (simp add: getCache_stored ne)
  show "snd (getCache now' K (setCache now K v t c)) K = None"
    by (simp add: getCache_stored ne)
  fix fired
  show "fst (getCache now' K (cleanupTimer fired K (setCache now K v t c))) = None"
    by (simp add: getCache_cleaned_expired [OF e])
  show "snd (getCache now' K (cleanupTimer fired K (setCache now K v t c))) K = None"
    by (simp add: getCache_cleaned_expired [OF e])
qed

text \<open>
  An instance: \<open>store("m", 1, 5)\<close> at the clock reading 1700000000000; the fetch at the same
  reading returns the value, the fetch six seconds later returns absent.
\<close>

theorem cache_store_then_fetch_witness:
  "(0::int) < 1700000000000 \<and> (1700000000000::int) < 2 ^ 53 \<and> (0::real) < 5
   \<and> spacing (real_of_int 1700000000000) \<le> 5 * 1000
   \<and> (1700000006000::int) < 2 ^ 53
   \<and> real_of_int 1700000000000 + 5 * 1000 \<le> real_of_int 1700000006000
   \<and> getCache 1700000000000 ''m'' (setCache 1700000000000 ''m'' (1::nat) 5 Map.empty)
       = (Some 1, setCache 1700000000000 ''m'' 1 5 Map.empty)
   \<and> fst (getCache 1700000006000 ''m'' (setCache 1700000000000 ''m'' (1::nat) 5 Map.empty)) = None
   \<and> snd (getCache 1700000006000 ''m'' (setCache 1700000000000 ''m'' (1::nat) 5 Map.empty)) ''m''
       = None"
proof -
  have h1: "(0::int) < 1700000000000" by simp
  have h2: "(1700000000000::int) < 2 ^ 53" by simp
  have h3: "(0::real) < 5" by simp
  have h4: "(1700000006000::int) < 2 ^ 53" by simp
  have h5: "real_of_int 1700000000000 + 5 * 1000 \<le> real_of_int 1700000006000" by simp
  note inst = cache_store_then_fetch [OF h1 h2 h3, of "''m''" "1::nat" Map.empty]
  from inst have s1: "spacing (real_of_int 1700000000000) \<le> 1" by (rule conjunct1)
  then have s5: "spacing (real_of_int 1700000000000) \<le> 5 * 1000" by linarith
  from inst [THEN conjunct2, THEN conjunct1] s5
  have hit: "getCache 1700000000000 ''m'' (setCache 1700000000000 ''m'' (1::nat) 5 Map.empty)
       = (Some 1, setCache 1700000000000 ''m'' 1 5 Map.empty)" by (rule mp)
  from inst [THEN conjunct2, THEN conjunct2, THEN spec, of 1700000006000] h4 h5
  have miss: "fst (getCache 1700000006000 ''m'' (setCache 1700000000000 ''m'' (1::nat) 5 Map.empty)) = None
      \<and> snd (getCache 1700000006000 ''m'' (setCache 1700000000000 ''m'' (1::nat) 5 Map.empty)) ''m''
       = None"
    by (metis (no_types))
  note m1 = miss [THEN conjunct1] and m2 = miss [THEN conjunct2]
  from h1 h2 h3 s5 h4 h5 hit m1 m2 show ?thesis by (intro conjI)
qed

lemma to_double_exact:
  "0 < N \<Longrightarrow> N \<le> 2 ^ 53 \<Longrightarrow>
   to_double (real_of_int N * 2 powr of_int j) = real_of_int N * 2 powr of_int j"
  using to_double_lower [of "real_of_int N * 2 powr of_int j" N j]
        to_double_upper [of "real_of_int N * 2 powr of_int j" N j]
  by (simp add: zero_less_mult_iff)

lemma tiny_ttl_ms: "to_double (1 / 2 ^ 24 * 1000) = 125 / 2 ^ 21"
proof -
  have "(1 / 2 ^ 24 * 1000 :: real) = real_of_int 125 * 2 powr of_int (- 21)"
    by (simp add: powr_neg_numeral)
  moreover have "to_double (real_of_int 125 * 2 powr of_int (- 21))
                   = real_of_int 125 * 2 powr of_int (- 21)"
    by (rule to_double_exact) simp_all
  ultimately show ?thesis by (simp add: powr_neg_numeral)
qed

lemma tiny_ttl_expiry:
  "to_double (real_of_int 1700000000000 + 125 / 2 ^ 21) = real_of_int 1700000000000"
proof -
  let ?x = "real_of_int 1700000000000 + 125 / 2 ^ 21 :: real"
  have x: "0 < ?x" by simp
  have e: "expo ?x = 40"
    by (rule expo_eq) (simp_all add: powr_numeral)
  have u: "spacing ?x = 1 / 2 ^ 12"
    unfolding spacing_def e by (simp add: powr_neg_numeral)
  have q: "?x / (1 / 2 ^ 12) = 6963200000000000 + 125 / 512" by simp
  have f: "\<lfloor>6963200000000000 + 125 / 512 :: real\<rfloor> = 6963200000000000"
    by (rule floor_unique) simp_all
  have r: "round_even (6963200000000000 + 125 / 512) = 6963200000000000"
    unfolding round_even_def f by (simp add: Let_def)
  show ?thesis
    unfolding to_double_pos [OF x] u q r by simp
qed

text \<open>
  Claim C1 as stated fails for a TTL too short to survive the rounding of the expiry
  instant: at the clock reading 1700000000000 neighbouring doubles are \<open>1 / 2 ^ 12\<close> ms
  apart, so with the TTL \<open>1 / 2 ^ 24\<close> s (\<open>125 / 2 ^ 21\<close> ms) the sum
  \<open>Date.now() + ttlSeconds * 1000\<close> rounds back to the clock reading, and the fetch right
  after the store finds the entry expired, deletes it and returns absent.
\<close>

theorem cache_tiny_ttl_counterexample:
  "(0::real) < 1 / 2 ^ 24
   \<and> fst (getCache 1700000000000 ''m''
          (setCache 1700000000000 ''m'' (1::nat) (1 / 2 ^ 24) Map.empty)) = None
   \<and> snd (getCache 1700000000000 ''m''
          (setCache 1700000000000 ''m'' (1::nat) (1 / 2 ^ 24) Map.empty)) ''m'' = None"
proof -
  have expiry: "to_double (real_of_int 1700000000000 + to_double (1 / 2 ^ 24 * 1000))
          = real_of_int 1700000000000"
    unfolding tiny_ttl_ms by (rule tiny_ttl_expiry)
  have a: "fst (getCache 1700000000000 ''m''
          (setCache 1700000000000 ''m'' (1::nat) (1 / 2 ^ 24) Map.empty)) = None"
    unfolding getCache_stored expiry by simp
  have b: "snd (getCache 1700000000000 ''m''
          (setCache 1700000000000 ''m'' (1::nat) (1 / 2 ^ 24) Map.empty)) ''m'' = None"
    unfolding getCache_stored expiry by simp
  have c: "(0::real) < 1 / 2 ^ 24" by simp
  from c a b show ?thesis by (intro conjI)
qed

section \<open>Properties of the topic event bus\<close>

lemma subscribe_grows:
  "m t = Some arr \<Longrightarrow> \<exists>ext. subscribeToKafkaTopic t' h m t = Some (arr @ ext)"
  by (auto simp: subscribeToKafkaTopic_def Let_def split: option.splits)

lemma run_body_grows:
  "m t = Some arr \<Longrightarrow> \<exists>ext. fst (run_body as m) t = Some (arr @ ext)"
proof (induction as m arbitrary: arr rule: run_body.induct)
  case (3 t' h rest m)
  from subscribe_grows [of m t arr t' h] "3.prems" obtain e1
    where "subscribeToKafkaTopic t' h m t = Some (arr @ e1)" by blast
  from "3.IH" [OF this] show ?case by auto
qed auto

lemma run_body_raises: "snd (run_body as m) = (Throw \<in> set as)"
  by (induction as m rule: run_body.induct) auto

lemma forEach_spec:
  "m t = Some (arr @ ext) \<Longrightarrow> k + n = length arr \<Longrightarrow>
   snd (forEach n k t msg m calls)
     = (calls @ map (\<lambda>h. (h, msg)) (upto_first_raise (drop k arr)),
        list_ex throws (drop k arr))"
proof (induction n arbitrary: k m calls ext)
  case 0
  then show ?case by simp
next
  case (Suc n)
  then have k: "k < length arr" by simp
  then have nth: "(arr @ ext) ! k = arr ! k" by (simp add: nth_append)
  have dr: "drop k arr = arr ! k # drop (Suc k) arr"
    using k by (simp add: Cons_nth_drop_Suc)
  obtain m' r where rb: "run_body (behaviour (arr ! k)) m = (m', r)" by (cases "run_body (behaviour (arr ! k)) m")
  have r: "r = throws (arr ! k)"
    using run_body_raises [of "behaviour (arr ! k)" m] rb by (simp add: throws_def)
  show ?case
  proof (cases r)
    case True
    have "forEach (Suc n) k t msg m calls = (m', calls @ [(arr ! k, msg)], True)"
      using True Suc.prems(1) k nth rb by simp
    then show ?thesis using True r by (simp add: dr)
  next
    case False
    from run_body_grows [of m t "arr @ ext" "behaviour (arr ! k)"] Suc.prems(1) rb
    obtain e2 where m': "m' t = Some (arr @ ext @ e2)" by auto
    from Suc.prems have len: "Suc k + n = length arr" by simp
    have "snd (forEach n (Suc k) t msg m' (calls @ [(arr ! k, msg)]))
            = ((calls @ [(arr ! k, msg)]) @ map (\<lambda>h. (h, msg)) (upto_first_raise (drop (Suc k) arr)),
               list_ex throws (drop (Suc k) arr))"
      using m' len by (rule Suc.IH [where ext = "ext @ e2"])
    moreover have "forEach (Suc n) k t msg m calls = forEach n (Suc k) t msg m' (calls @ [(arr ! k, msg)])"
      using False Suc.prems(1) k nth rb by simp
    ultimately show ?thesis using False r by (simp add: dr)
  qed
qed

lemma emit_spec:
  "snd (emitKafkaEvent part now isoNow t d m)
     = (map (\<lambda>h. (h, mkMessage t part now isoNow d)) (upto_first_raise (registered m t)),
        list_ex throws (registered m t))"
proof (cases "m t")
  case None
  then show ?thesis by (simp add: emitKafkaEvent_def registered_def)
next
  case (Some arr)
  then have "m t = Some (arr @ [])" by simp
  from forEach_spec [of m t arr "[]" 0 "length arr" "mkMessage t part now isoNow d" "[]"] this Some
  show ?thesis by (simp add: emitKafkaEvent_def registered_def)
qed

lemma upto_first_raise_none: "\<not> list_ex throws hs \<Longrightarrow> upto_first_raise hs = hs"
  by (induction hs) auto

lemma upto_first_raise_take:
  "i < length hs \<Longrightarrow> throws (hs ! i) \<Longrightarrow> (\<forall>j<i. \<not> throws (hs ! j)) \<Longrightarrow>
   upto_first_raise hs = take (Suc i) hs"
proof (induction hs arbitrary: i)
  case Nil
  then show ?case by simp
next
  case (Cons h hs)
  show ?case
  proof (cases i)
    case 0
    with Cons.prems show ?thesis by simp
  next
    case (Suc i')
    with Cons.prems have "\<not> throws h" by auto
    moreover have "upto_first_raise hs = take (Suc i') hs"
      using Cons.prems Suc by (intro Cons.IH) auto
    ultimately show ?thesis using Suc by simp
  qed
qed

lemma forEach_grows:
  "m t = Some arr \<Longrightarrow> \<exists>ext. fst (forEach n k t' msg m calls) t = Some (arr @ ext)"
proof (induction n arbitrary: k m calls arr)
  case 0
  then show ?case by simp
next
  case (Suc n)
  show ?case
  proof (cases "m t'")
    case None
    with Suc.IH [of m arr "Suc k" calls] Suc.prems show ?thesis by simp
  next
    case (Some a)
    show ?thesis
    proof (cases "k < length a")
      case False
      with Some Suc.IH [of m arr "Suc k" calls] Suc.prems show ?thesis by simp
    next
      case True
      obtain m' r where rb: "run_body (behaviour (a ! k)) m = (m', r)"
        by (cases "run_body (behaviour (a ! k)) m")
      from run_body_grows [of m t arr "behaviour (a ! k)"] Suc.prems rb
      obtain e1 where m': "m' t = Some (arr @ e1)" by auto
      show ?thesis
      proof (cases r)
        case True
        with Some \<open>k < length a\<close> rb m' show ?thesis by simp
      next
        case False
        from Suc.IH [of m' "arr @ e1" "Suc k" "calls @ [(a ! k, msg)]"] m'
        obtain e2 where "fst (forEach n (Suc k) t' msg m' (calls @ [(a ! k, msg)])) t = Some (arr @ e1 @ e2)"
          by auto
        with Some \<open>k < length a\<close> rb False show ?thesis by simp
      qed
    qed
  qed
qed

lemma emit_grows:
  "m t = Some arr \<Longrightarrow>
   \<exists>ext. listeners_after (emitKafkaEvent part now isoNow t' d m) t = Some (arr @ ext)"
  unfolding emitKafkaEvent_def listeners_after_def Let_def
  by (cases "m t'") (simp_all add: forEach_grows)

lemma subscribe_registered:
  "registered (subscribeToKafkaTopic t h m) t = registered m t @ [h]"
  by (simp add: subscribeToKafkaTopic_def registered_def Let_def split: option.splits)

lemma run_calls_grows:
  "m t = Some arr \<Longrightarrow> \<exists>ext. run_calls cs m t = Some (arr @ ext)"
proof (induction cs m arbitrary: arr rule: run_calls.induct)
  case (1 m)
  then show ?case by simp
next
  case (2 t' h cs m)
  from subscribe_grows [of m t arr t' h] "2.prems" obtain e1
    where "subscribeToKafkaTopic t' h m t = Some (arr @ e1)" by blast
  from "2.IH" [OF this] show ?case by auto
next
  case (3 part now isoNow t' d cs m)
  from emit_grows [of m t arr part now isoNow t' d] "3.prems" obtain e1
    where "listeners_after (emitKafkaEvent part now isoNow t' d m) t = Some (arr @ e1)" by blast
  from "3.IH" [OF this] show ?case by auto
qed

lemma upto_first_raise_prefix:
  "upto_first_raise hs = take (length (upto_first_raise hs)) hs"
  by (induction hs) auto

lemma emit_registered_grows:
  "\<exists>new. registered (listeners_after (emitKafkaEvent part now isoNow t d m)) t = registered m t @ new"
proof (cases "m t")
  case None
  then show ?thesis by (simp add: registered_def)
next
  case (Some arr)
  from emit_grows [of m t arr part now isoNow t d] Some show ?thesis
    by (auto simp: registered_def)
qed

text \<open>
  Claim C2, as the code has it. For every topic \<open>T\<close> and payload \<open>e\<close>, \<open>publish(T, e)\<close> calls,
  each with the one message built from \<open>e\<close>, once each and in registration order, the
  handlers registered for \<open>T\<close> at the moment of the publish up to and including the first
  one that throws; when none throws these are exactly the registered handlers. The calls
  are always an initial segment of the handlers registered at the moment of the publish,
  so a handler that is registered for \<open>T\<close> from inside a handler called by that publish
  (it is appended behind them) is not called by that publish.
\<close>

theorem publish_delivers_registered_until_raise:
  "invoked (emitKafkaEvent part now isoNow T e m)
     = map (\<lambda>h. (h, mkMessage T part now isoNow e)) (upto_first_raise (registered m T))
   \<and> map fst (invoked (emitKafkaEvent part now isoNow T e m))
       = take (length (invoked (emitKafkaEvent part now isoNow T e m))) (registered m T)
   \<and> (\<not> list_ex throws (registered m T) \<longrightarrow>
        map fst (invoked (emitKafkaEvent part now isoNow T e m)) = registered m T)
   \<and> (\<exists>new. registered (listeners_after (emitKafkaEvent part now isoNow T e m)) T
               = registered m T @ new)"
proof -
  have inv: "invoked (emitKafkaEvent part now isoNow T e m)
     = map (\<lambda>h. (h, mkMessage T part now isoNow e)) (upto_first_raise (registered m T))"
    using emit_spec [of part now isoNow T e m] by (simp add: invoked_def)
  have fsts: "map fst (invoked (emitKafkaEvent part now isoNow T e m))
                = upto_first_raise (registered m T)"
    by (simp add: inv comp_def)
  have pre: "map fst (invoked (emitKafkaEvent part now isoNow T e m))
       = take (length (invoked (emitKafkaEvent part now isoNow T e m))) (registered m T)"
    using upto_first_raise_prefix [of "registered m T"] by (simp add: fsts) (simp add: inv)
  have all: "\<not> list_ex throws (registered m T) \<longrightarrow>
        map fst (invoked (emitKafkaEvent part now isoNow T e m)) = registered m T"
    by (simp add: fsts upto_first_raise_none)
  from inv pre all emit_registered_grows [of part now isoNow T e m] show ?thesis by blast
qed

text \<open>
  An instance: two handlers on \<open>''t''\<close>, neither throws, and the first one registers a third
  handler on \<open>''t''\<close> while it runs. The two are called; the third is registered afterwards
  and was not called.
\<close>

theorem publish_delivers_registered_until_raise_witness:
  "\<not> list_ex throws (registered
        (subscribeToKafkaTopic ''t'' (Handler 102 [])
          (subscribeToKafkaTopic ''t'' (Handler 101 [Subscribe ''t'' (Handler 103 [])]) Map.empty)) ''t'')
   \<and> map fst (invoked (emitKafkaEvent 2 1000 ''2025-01-01T00:00:01.000Z'' ''t'' (1::nat)
        (subscribeToKafkaTopic ''t'' (Handler 102 [])
          (subscribeToKafkaTopic ''t'' (Handler 101 [Subscribe ''t'' (Handler 103 [])]) Map.empty))))
       = [Handler 101 [Subscribe ''t'' (Handler 103 [])], Handler 102 []]
   \<and> registered (listeners_after (emitKafkaEvent 2 1000 ''2025-01-01T00:00:01.000Z'' ''t'' (1::nat)
        (subscribeToKafkaTopic ''t'' (Handler 102 [])
          (subscribeToKafkaTopic ''t'' (Handler 101 [Subscribe ''t'' (Handler 103 [])]) Map.empty)))) ''t''
       = [Handler 101 [Subscribe ''t'' (Handler 103 [])], Handler 102 [], Handler 103 []]"
proof -
  let ?m = "subscribeToKafkaTopic ''t'' (Handler 102 [])
          (subscribeToKafkaTopic ''t'' (Handler 101 [Subscribe ''t'' (Handler 103 [])]) Map.empty)"
  have reg: "registered ?m ''t'' = [Handler 101 [Subscribe ''t'' (Handler 103 [])], Handler 102 []]"
    unfolding subscribe_registered by (simp add: registered_def)
  have quiet: "\<not> list_ex throws (registered ?m ''t'')"
    by (simp add: reg throws_def)
  have after: "registered (listeners_after (emitKafkaEvent 2 1000 ''2025-01-01T00:00:01.000Z'' ''t'' (1::nat) ?m)) ''t''
       = [Handler 101 [Subscribe ''t'' (Handler 103 [])], Handler 102 [], Handler 103 []]"
    by (simp add: emitKafkaEvent_def listeners_after_def registered_def subscribeToKafkaTopic_def
        Let_def)
  from publish_delivers_registered_until_raise
         [of 2 1000 "''2025-01-01T00:00:01.000Z''" "''t''" "1::nat" ?m] quiet reg after
  show ?thesis by simp
qed

text \<open>
  Claim C2 as stated fails where a handler throws: of two handlers registered for
  \<open>''market_data''\<close>, the first of which throws, the publish does not call exactly the
  registered ones.
\<close>

theorem publish_skips_handlers_after_raise_counterexample:
  "map fst (invoked (emitKafkaEvent 0 0 [] ''market_data'' (0::nat)
       [''market_data'' \<mapsto> [Handler 101 [Throw], Handler 102 []]]))
     \<noteq> registered [''market_data'' \<mapsto> [Handler 101 [Throw], Handler 102 []]] ''market_data''"
  by (simp add: emitKafkaEvent_def invoked_def registered_def Let_def)

text \<open>
  Claim C4, as the code has it. \<open>emitKafkaEvent\<close> has no \<open>try\<close> around the call of a
  listener. If the handler at position \<open>i\<close> of the handlers registered for a topic is the
  first one that throws, the exception leaves the publish, and the handlers called for
  that event are exactly those at positions \<open>0\<close> to \<open>i\<close>: no handler registered behind
  the throwing one is called.
\<close>

theorem raising_handler_stops_delivery:
  assumes "i < length (registered m T)"
    and "throws (registered m T ! i)"
    and "\<forall>j<i. \<not> throws (registered m T ! j)"
  shows "raised (emitKafkaEvent part now isoNow T e m)
       \<and> invoked (emitKafkaEvent part now isoNow T e m)
           = map (\<lambda>h. (h, mkMessage T part now isoNow e)) (take (Suc i) (registered m T))"
proof -
  from assms(1,2) have "list_ex throws (registered m T)"
    by (auto simp: list_ex_iff)
  then have r: "raised (emitKafkaEvent part now isoNow T e m)"
    using emit_spec [of part now isoNow T e m] by (simp add: raised_def)
  from assms have "upto_first_raise (registered m T) = take (Suc i) (registered m T)"
    by (rule upto_first_raise_take)
  with r emit_spec [of part now isoNow T e m] show ?thesis
    by (simp add: invoked_def)
qed

text \<open>An instance: three handlers, the second throws; the third is not called.\<close>

theorem raising_handler_stops_delivery_witness:
  "(1::nat) < length (registered [''t'' \<mapsto> [Handler 101 [], Handler 102 [Throw], Handler 103 []]] ''t'')
   \<and> throws (registered [''t'' \<mapsto> [Handler 101 [], Handler 102 [Throw], Handler 103 []]] ''t'' ! 1)
   \<and> \<not> throws (registered [''t'' \<mapsto> [Handler 101 [], Handler 102 [Throw], Handler 103 []]] ''t'' ! 0)
   \<and> raised (emitKafkaEvent 0 5 [] ''t'' (7::nat) [''t'' \<mapsto> [Handler 101 [], Handler 102 [Throw], Handler 103 []]])
   \<and> map fst (invoked (emitKafkaEvent 0 5 [] ''t'' (7::nat)
          [''t'' \<mapsto> [Handler 101 [], Handler 102 [Throw], Handler 103 []]]))
       = [Handler 101 [], Handler 102 [Throw]]"
proof -
  let ?m = "[''t'' \<mapsto> [Handler 101 [], Handler 102 [Throw], Handler 103 []]]"
  have h1: "(1::nat) < length (registered ?m ''t'')" by (simp add: registered_def)
  have h2: "throws (registered ?m ''t'' ! 1)" by (simp add: registered_def throws_def)
  have h0: "\<not> throws (registered ?m ''t'' ! 0)" by (simp add: registered_def throws_def)
  then have h3: "\<forall>j<1. \<not> throws (registered ?m ''t'' ! j)" by simp
  have tk: "take (Suc 1) (registered ?m ''t'') = [Handler 101 [], Handler 102 [Throw]]"
    by (simp add: registered_def)
  from raising_handler_stops_delivery [OF h1 h2 h3, of 0 5 "[]" "7::nat"]
  have "raised (emitKafkaEvent 0 5 [] ''t'' (7::nat) ?m)"
    and "map fst (invoked (emitKafkaEvent 0 5 [] ''t'' (7::nat) ?m))
           = [Handler 101 [], Handler 102 [Throw]]"
    unfolding tk by simp_all
  with h1 h2 h0 show ?thesis by (intro conjI)
qed

text \<open>
  Claim C4 as stated fails: with two handlers registered for \<open>''risk_alerts''\<close>, the earlier
  of which throws, the exception leaves the publish and the later handler is not called.
\<close>

theorem later_handler_not_invoked_counterexample:
  "raised (emitKafkaEvent 1 42 [] ''risk_alerts'' (0::nat)
       (subscribeToKafkaTopic ''risk_alerts'' (Handler 11 [])
         (subscribeToKafkaTopic ''risk_alerts'' (Handler 10 [Throw]) Map.empty)))
   \<and> Handler 11 [] \<notin> set (map fst (invoked (emitKafkaEvent 1 42 [] ''risk_alerts'' (0::nat)
       (subscribeToKafkaTopic ''risk_alerts'' (Handler 11 [])
         (subscribeToKafkaTopic ''risk_alerts'' (Handler 10 [Throw]) Map.empty)))))"
  by (simp add: emitKafkaEvent_def invoked_def raised_def subscribeToKafkaTopic_def Let_def)

text \<open>
  Claim C5 asks for an \<open>unsubscribe\<close> that removes a registration. The class has none, and
  \<open>subscribeToKafkaTopic\<close> returns no handle: after a handler has been subscribed to a
  topic, it is still registered for that topic after every further history of subscribe
  and publish calls.
\<close>

theorem registration_is_never_removed:
  "h \<in> set (registered (run_calls cs (subscribeToKafkaTopic t h m)) t)"
proof -
  have "subscribeToKafkaTopic t h m t = Some (registered m t @ [h])"
    by (simp add: subscribeToKafkaTopic_def registered_def Let_def split: option.splits)
  from run_calls_grows [of "subscribeToKafkaTopic t h m" t "registered m t @ [h]" cs] this
  obtain ext where "run_calls cs (subscribeToKafkaTopic t h m) t = Some ((registered m t @ [h]) @ ext)"
    by blast
  then show ?thesis by (simp add: registered_def)
qed

section \<open>Properties of the source gateway\<close>

text \<open>
  Claim C6. \<open>invokeLambdaFunction(functionName, payload)\<close> returns a result with
  \<open>statusCode\<close> 200 exactly when the name is one of \<open>RISK_CALCULATION\<close>,
  \<open>PORTFOLIO_ANALYSIS\<close>, \<open>ALERT_PROCESSOR\<close>, and it returns at all exactly for these names;
  for every other name it throws the error \<open>Unknown Lambda function: <name>\<close>. In
  particular \<open>ALERT_PROCESSOR\<close> returns status 200 with a body of alerts, and
  \<open>NOT_A_FUNCTION\<close> throws.
\<close>

theorem invoke_dispatches_on_fixed_names:
  "(\<exists>b. invokeLambdaFunction md rnd isoNow fn payload
          = Inr \<lparr>statusCode = 200, body = Some b\<rparr>)
     = (fn \<in> {''RISK_CALCULATION'', ''PORTFOLIO_ANALYSIS'', ''ALERT_PROCESSOR''})
   \<and> (\<not> isl (invokeLambdaFunction md rnd isoNow fn payload))
     = (fn \<in> {''RISK_CALCULATION'', ''PORTFOLIO_ANALYSIS'', ''ALERT_PROCESSOR''})
   \<and> (fn \<notin> {''RISK_CALCULATION'', ''PORTFOLIO_ANALYSIS'', ''ALERT_PROCESSOR''} \<longrightarrow>
        invokeLambdaFunction md rnd isoNow fn payload
          = Inl (Error (''Unknown Lambda function: '' @ fn)))
   \<and> (\<exists>al. invokeLambdaFunction md rnd isoNow ''ALERT_PROCESSOR'' payload
          = Inr \<lparr>statusCode = 200, body = Some (AlertProcessor al isoNow)\<rparr>)
   \<and> invokeLambdaFunction md rnd isoNow ''NOT_A_FUNCTION'' payload
          = Inl (Error ''Unknown Lambda function: NOT_A_FUNCTION'')"
  by (simp add: invokeLambdaFunction_def)

theorem invoke_dispatches_on_fixed_names_witness:
  "''NOT_A_FUNCTION'' \<notin> {''RISK_CALCULATION'', ''PORTFOLIO_ANALYSIS'', ''ALERT_PROCESSOR''}
   \<and> invokeLambdaFunction mockData (1 / 2) ''2025-01-01T00:00:00.000Z'' ''NOT_A_FUNCTION'' ()
       = Inl (Error ''Unknown Lambda function: NOT_A_FUNCTION'')
   \<and> \<not> isl (invokeLambdaFunction mockData (1 / 2) ''2025-01-01T00:00:00.000Z''
              ''ALERT_PROCESSOR'' ())"
proof -
  have h: "''NOT_A_FUNCTION'' \<notin> {''RISK_CALCULATION'', ''PORTFOLIO_ANALYSIS'', ''ALERT_PROCESSOR''}"
    by simp
  note n = invoke_dispatches_on_fixed_names
         [of mockData "1 / 2" "''2025-01-01T00:00:00.000Z''" "''NOT_A_FUNCTION''" "()"]
  from n have "''NOT_A_FUNCTION'' \<notin> {''RISK_CALCULATION'', ''PORTFOLIO_ANALYSIS'', ''ALERT_PROCESSOR''}
        \<longrightarrow> invokeLambdaFunction mockData (1 / 2) ''2025-01-01T00:00:00.000Z'' ''NOT_A_FUNCTION'' ()
          = Inl (Error (''Unknown Lambda function: '' @ ''NOT_A_FUNCTION''))"
    by (elim conjE)
  with h have a: "invokeLambdaFunction mockData (1 / 2) ''2025-01-01T00:00:00.000Z'' ''NOT_A_FUNCTION'' ()
       = Inl (Error ''Unknown Lambda function: NOT_A_FUNCTION'')" by simp
  have b: "\<not> isl (invokeLambdaFunction mockData (1 / 2) ''2025-01-01T00:00:00.000Z''
              ''ALERT_PROCESSOR'' ())"
    by (simp add: invokeLambdaFunction_def)
  from h a b show ?thesis by (intro conjI)
qed

text \<open>
  Claim C9. \<open>invokeLambdaFunction('ALERT_PROCESSOR', payload)\<close> returns in \<open>body.alerts\<close> the
  stored alerts whose \<open>status\<close> is \<open>'ACTIVE'\<close>, in their order, and nothing else: every
  returned alert is a stored one with status \<open>'ACTIVE'\<close>, none has status \<open>'RESOLVED'\<close> or
  \<open>'MONITORING'\<close>.
\<close>

theorem alert_processor_returns_active_only:
  "\<exists>r. invokeLambdaFunction md rnd isoNow ''ALERT_PROCESSOR'' payload = Inr r
      \<and> statusCode r = 200
      \<and> body_alerts r = Some (filter (\<lambda>a. status a = ''ACTIVE'') (md_riskAlerts md))
      \<and> (\<forall>a \<in> set (or_empty (body_alerts r)).
            status a = ''ACTIVE'' \<and> status a \<noteq> ''RESOLVED'' \<and> status a \<noteq> ''MONITORING''
          \<and> a \<in> set (md_riskAlerts md))"
  by (simp add: invokeLambdaFunction_def body_alerts_def or_empty_def)

theorem alert_processor_returns_active_only_witness:
  "\<exists>r. invokeLambdaFunction mockData (1 / 2) ''2025-01-01T00:00:00.000Z'' ''ALERT_PROCESSOR'' ()
          = Inr r
      \<and> map symbol (or_empty (body_alerts r)) = [''TSLA'', ''GOOGL'']
      \<and> map status (or_empty (body_alerts r)) = [''ACTIVE'', ''ACTIVE'']"
proof -
  from alert_processor_returns_active_only
         [of mockData "1 / 2" "''2025-01-01T00:00:00.000Z''" "()"]
  obtain r where all: "invokeLambdaFunction mockData (1 / 2) ''2025-01-01T00:00:00.000Z''
                       ''ALERT_PROCESSOR'' () = Inr r
      \<and> statusCode r = 200
      \<and> body_alerts r = Some (filter (\<lambda>a. status a = ''ACTIVE'') (md_riskAlerts mockData))
      \<and> (\<forall>a \<in> set (or_empty (body_alerts r)).
            status a = ''ACTIVE'' \<and> status a \<noteq> ''RESOLVED'' \<and> status a \<noteq> ''MONITORING''
          \<and> a \<in> set (md_riskAlerts mockData))" ..
  note r = all [THEN conjunct1]
  note b = all [THEN conjunct2, THEN conjunct2, THEN conjunct1]
  note a = all [THEN conjunct2, THEN conjunct2, THEN conjunct2]
  have f: "map symbol (filter (\<lambda>a. status a = ''ACTIVE'') (md_riskAlerts mockData))
          = [''TSLA'', ''GOOGL'']"
    by (simp add: mockData_def)
  with b have s: "map symbol (or_empty (body_alerts r)) = [''TSLA'', ''GOOGL'']"
    by (simp only: or_empty_def option.case)
  from s have len: "length (or_empty (body_alerts r)) = 2"
    using length_map [of symbol "or_empty (body_alerts r)"] by simp
  have st: "map status (or_empty (body_alerts r)) = [''ACTIVE'', ''ACTIVE'']"
  proof (rule nth_equalityI)
    show "length (map status (or_empty (body_alerts r))) = length [''ACTIVE'', ''ACTIVE'']"
      using len by simp
  next
    fix i assume "i < length (map status (or_empty (body_alerts r)))"
    then have i: "i < length (or_empty (body_alerts r))" by simp
    then have mem: "or_empty (body_alerts r) ! i \<in> set (or_empty (body_alerts r))" by simp
    note act = a [THEN bspec, OF mem, THEN conjunct1]
    from i len have "i = 0 \<or> i = 1" by arith
    then have "[''ACTIVE'', ''ACTIVE''] ! i = ''ACTIVE''" by (elim disjE) simp_all
    with act i show "map status (or_empty (body_alerts r)) ! i = [''ACTIVE'', ''ACTIVE''] ! i"
      by simp
  qed
  from r s st show ?thesis by (intro exI [of _ r] conjI)
qed

section \<open>Properties of the aggregation and of the hook\<close>

lemma join_isl: "isl (join a b) = (isl a \<or> isl b)"
  by (cases "(a, b)" rule: join.cases) auto

lemma join_rejection:
  "join a b = Inl r \<Longrightarrow> rejection a = Some r \<or> rejection b = Some r"
  by (cases "(a, b)" rule: join.cases) (auto simp: rejection_def split: if_splits)

lemma rejection_Some: "(rejection p = Some r) = (p = Inl r)"
  by (cases p) (auto simp: rejection_def)

lemma loadData_rejected:
  "loadData (Inl err) now st =
     st\<lparr>error := Some (case err of Error msg \<Rightarrow> msg | NonError \<Rightarrow> ''Failed to load data''),
        isRealTimeConnected := False, loading := False\<rparr>"
  by (simp add: loadData_def)

text \<open>
  Claim C3. If at least one of the six promises joined by \<open>getAllDashboardData\<close> is
  rejected (in particular one while the others are fulfilled), the call throws one of the
  rejections and builds no snapshot; \<open>loadData\<close> then leaves \<open>data\<close> as it was (\<open>null\<close> on
  the first load) and \<open>lastUpdated\<close> too, sets \<open>error\<close> to the message of what was thrown,
  and clears \<open>isRealTimeConnected\<close> and \<open>loading\<close>.
\<close>

theorem initial_load_all_or_nothing:
  assumes "isl p1 \<or> isl p2 \<or> isl p3 \<or> isl p4 \<or> isl p5 \<or> isl p6"
  shows "\<exists>t err. getAllDashboardData p1 p2 p3 p4 p5 p6 = Inl err
           \<and> Some (t, err) \<in> {rejection p1, rejection p2, rejection p3,
                                rejection p4, rejection p5, rejection p6}
           \<and> data (loadData (getAllDashboardData p1 p2 p3 p4 p5 p6) now st) = data st
           \<and> error (loadData (getAllDashboardData p1 p2 p3 p4 p5 p6) now st)
               = Some (case err of Error msg \<Rightarrow> msg | NonError \<Rightarrow> ''Failed to load data'')
           \<and> \<not> isRealTimeConnected (loadData (getAllDashboardData p1 p2 p3 p4 p5 p6) now st)
           \<and> \<not> loading (loadData (getAllDashboardData p1 p2 p3 p4 p5 p6) now st)
           \<and> lastUpdated (loadData (getAllDashboardData p1 p2 p3 p4 p5 p6) now st)
               = lastUpdated st"
proof -
  let ?j = "join p1 (join p2 (join p3 (join p4 (join p5 p6))))"
  from assms have "isl ?j" by (simp add: join_isl)
  then obtain t err where j: "?j = Inl (t, err)" by (cases ?j) auto
  then have g: "getAllDashboardData p1 p2 p3 p4 p5 p6 = Inl err"
    by (simp add: getAllDashboardData_def)
  have "Some (t, err) \<in> {rejection p1, rejection p2, rejection p3,
                         rejection p4, rejection p5, rejection p6}"
  proof -
    from join_rejection [OF j] consider "rejection p1 = Some (t, err)"
      | "join p2 (join p3 (join p4 (join p5 p6))) = Inl (t, err)"
      by (auto simp: rejection_Some)
    then show ?thesis
    proof cases
      case 1 then show ?thesis by simp
    next
      case 2
      from join_rejection [OF 2] consider "rejection p2 = Some (t, err)"
        | "join p3 (join p4 (join p5 p6)) = Inl (t, err)"
        by (auto simp: rejection_Some)
      then show ?thesis
      proof cases
        case 1 then show ?thesis by simp
      next
        case 2
        from join_rejection [OF 2] consider "rejection p3 = Some (t, err)"
          | "join p4 (join p5 p6) = Inl (t, err)"
          by (auto simp: rejection_Some)
        then show ?thesis
        proof cases
          case 1 then show ?thesis by simp
        next
          case 2
          from join_rejection [OF 2] consider "rejection p4 = Some (t, err)"
            | "join p5 p6 = Inl (t, err)"
            by (auto simp: rejection_Some)
          then show ?thesis
          proof cases
            case 1 then show ?thesis by simp
          next
            case 2
            from join_rejection [OF 2] show ?thesis by auto
          qed
        qed
      qed
    qed
  qed
  with g show ?thesis by (auto simp: loadData_rejected)
qed

theorem initial_load_all_or_nothing_witness:
  "(isl (Inr (realTimeMetrics mockData) :: RiskMetrics promise)
    \<or> isl (Inl (8, Error ''time series unavailable'') :: GraphQLResult promise)
    \<or> isl (Inr \<lparr>gql_data = None\<rparr> :: GraphQLResult promise)
    \<or> isl (Inr \<lparr>statusCode = 200, body = None\<rparr> :: LambdaResult promise)
    \<or> isl (Inr \<lparr>statusCode = 200, body = None\<rparr> :: LambdaResult promise)
    \<or> isl (Inr \<lparr>inherited = [], lastChecked = [], services = []\<rparr> :: HealthReport promise))
   \<and> getAllDashboardData
         (Inr (realTimeMetrics mockData)) (Inl (8, Error ''time series unavailable''))
         (Inr \<lparr>gql_data = None\<rparr>) (Inr \<lparr>statusCode = 200, body = None\<rparr>)
         (Inr \<lparr>statusCode = 200, body = None\<rparr>)
         (Inr \<lparr>inherited = [], lastChecked = [], services = []\<rparr>)
       = Inl (Error ''time series unavailable'')
   \<and> data (loadData (getAllDashboardData
         (Inr (realTimeMetrics mockData)) (Inl (8, Error ''time series unavailable''))
         (Inr \<lparr>gql_data = None\<rparr>) (Inr \<lparr>statusCode = 200, body = None\<rparr>)
         (Inr \<lparr>statusCode = 200, body = None\<rparr>)
         (Inr \<lparr>inherited = [], lastChecked = [], services = []\<rparr>)) 1000 initial_state) = None
   \<and> error (loadData (getAllDashboardData
         (Inr (realTimeMetrics mockData)) (Inl (8, Error ''time series unavailable''))
         (Inr \<lparr>gql_data = None\<rparr>) (Inr \<lparr>statusCode = 200, body = None\<rparr>)
         (Inr \<lparr>statusCode = 200, body = None\<rparr>)
         (Inr \<lparr>inherited = [], lastChecked = [], services = []\<rparr>)) 1000 initial_state)
       = Some ''time series unavailable''"
proof -
  let ?p1 = "Inr (realTimeMetrics mockData) :: RiskMetrics promise"
  let ?p2 = "Inl (8, Error ''time series unavailable'') :: GraphQLResult promise"
  let ?p3 = "Inr \<lparr>gql_data = None\<rparr> :: GraphQLResult promise"
  let ?p4 = "Inr \<lparr>statusCode = 200, body = None\<rparr> :: LambdaResult promise"
  let ?p6 = "Inr \<lparr>inherited = [], lastChecked = [], services = []\<rparr> :: HealthReport promise"
  have h: "isl ?p1 \<or> isl ?p2 \<or> isl ?p3 \<or> isl ?p4 \<or> isl ?p4 \<or> isl ?p6" by simp
  have g: "getAllDashboardData ?p1 ?p2 ?p3 ?p4 ?p4 ?p6 = Inl (Error ''time series unavailable'')"
    by (simp add: getAllDashboardData_def)
  from initial_load_all_or_nothing [OF h, of 1000 initial_state]
  obtain t err where e: "getAllDashboardData ?p1 ?p2 ?p3 ?p4 ?p4 ?p6 = Inl err"
    and d: "data (loadData (getAllDashboardData ?p1 ?p2 ?p3 ?p4 ?p4 ?p6) 1000 initial_state)
              = data initial_state"
    and m: "error (loadData (getAllDashboardData ?p1 ?p2 ?p3 ?p4 ?p4 ?p6) 1000 initial_state)
              = Some (case err of Error msg \<Rightarrow> msg | NonError \<Rightarrow> ''Failed to load data'')"
    by blast
  from e g have "err = Error ''time series unavailable''" by simp
  with m have m': "error (loadData (getAllDashboardData ?p1 ?p2 ?p3 ?p4 ?p4 ?p6) 1000 initial_state)
              = Some ''time series unavailable''" by simp
  from d have d': "data (loadData (getAllDashboardData ?p1 ?p2 ?p3 ?p4 ?p4 ?p6) 1000 initial_state)
              = None" by (simp add: initial_state_def)
  from h g d' m' show ?thesis by blast
qed

lemma getAll_fulfilled:
  "getAllDashboardData (Inr m) (Inr v) (Inr s) (Inr a) (Inr p) (Inr h) =
     Inr \<lparr>metrics = m,
          varHistory = or_empty (data_varHistory v),
          sectorExposure = or_empty (data_sectorExposure s),
          riskAlerts = or_empty (body_alerts a),
          portfolioBreakdown = or_empty (body_analysis p),
          systemHealth = h\<rparr>"
  by (simp add: getAllDashboardData_def)

lemma getAll_Inr_fulfilled:
  assumes "getAllDashboardData p1 p2 p3 p4 p5 p6 = Inr snap"
  shows "\<not> isl p1 \<and> \<not> isl p2 \<and> \<not> isl p3 \<and> \<not> isl p4 \<and> \<not> isl p5 \<and> \<not> isl p6"
proof -
  let ?j = "join p1 (join p2 (join p3 (join p4 (join p5 p6))))"
  have "\<not> isl ?j"
  proof
    assume "isl ?j"
    then obtain r where "?j = Inl r" by (cases ?j) auto
    with assms show False by (cases r) (simp add: getAllDashboardData_def)
  qed
  then show ?thesis by (simp add: join_isl)
qed

lemma not_isl_Inr: "\<not> isl p \<Longrightarrow> \<exists>v. p = Inr v"
  by (cases p) auto

text \<open>
  Claim C10. Every snapshot that \<open>getAllDashboardData\<close> returns comes from six fulfilled
  promises, and its fields \<open>varHistory\<close>, \<open>sectorExposure\<close>, \<open>riskAlerts\<close> and
  \<open>portfolioBreakdown\<close> are the arrays found in the upstream values, or the empty array
  where the upstream value has no such field (a query result whose \<open>data\<close> is \<open>null\<close>, a
  result without \<open>body\<close>, a \<open>body\<close> of another shape).
\<close>

theorem snapshot_lists_default_to_empty:
  assumes "getAllDashboardData p1 p2 p3 p4 p5 p6 = Inr snap"
  shows "\<exists>m v s a p h.
           p1 = Inr m \<and> p2 = Inr v \<and> p3 = Inr s \<and> p4 = Inr a \<and> p5 = Inr p \<and> p6 = Inr h
         \<and> varHistory snap = or_empty (data_varHistory v)
         \<and> sectorExposure snap = or_empty (data_sectorExposure s)
         \<and> riskAlerts snap = or_empty (body_alerts a)
         \<and> portfolioBreakdown snap = or_empty (body_analysis p)
         \<and> (data_varHistory v = None \<longrightarrow> varHistory snap = [])
         \<and> (data_sectorExposure s = None \<longrightarrow> sectorExposure snap = [])
         \<and> (body_alerts a = None \<longrightarrow> riskAlerts snap = [])
         \<and> (body_analysis p = None \<longrightarrow> portfolioBreakdown snap = [])
         \<and> (gql_data v = None \<longrightarrow> varHistory snap = [])
         \<and> (gql_data s = None \<longrightarrow> sectorExposure snap = [])
         \<and> (body a = None \<longrightarrow> riskAlerts snap = [])
         \<and> (body p = None \<longrightarrow> portfolioBreakdown snap = [])"
proof -
  from getAll_Inr_fulfilled [OF assms] obtain m v s a p h
    where ps: "p1 = Inr m" "p2 = Inr v" "p3 = Inr s" "p4 = Inr a" "p5 = Inr p" "p6 = Inr h"
    by (meson not_isl_Inr)
  from assms have snap: "snap = \<lparr>metrics = m,
          varHistory = or_empty (data_varHistory v),
          sectorExposure = or_empty (data_sectorExposure s),
          riskAlerts = or_empty (body_alerts a),
          portfolioBreakdown = or_empty (body_analysis p),
          systemHealth = h\<rparr>"
    unfolding ps getAll_fulfilled by simp
  have "varHistory snap = or_empty (data_varHistory v)"
    and "sectorExposure snap = or_empty (data_sectorExposure s)"
    and "riskAlerts snap = or_empty (body_alerts a)"
    and "portfolioBreakdown snap = or_empty (body_analysis p)"
    by (simp_all add: snap)
  moreover have "gql_data v = None \<longrightarrow> data_varHistory v = None"
    and "gql_data s = None \<longrightarrow> data_sectorExposure s = None"
    and "body a = None \<longrightarrow> body_alerts a = None"
    and "body p = None \<longrightarrow> body_analysis p = None"
    by (simp_all add: data_varHistory_def data_sectorExposure_def body_alerts_def
        body_analysis_def)
  moreover have "or_empty None = ([] :: VarHistoryItem list)"
    and "or_empty None = ([] :: SectorExposureItem list)"
    and "or_empty None = ([] :: RiskAlert list)"
    and "or_empty None = ([] :: PortfolioAsset list)"
    by (simp_all add: or_empty_def)
  ultimately show ?thesis using ps by (intro exI [of _ m] exI [of _ v] exI [of _ s]
        exI [of _ a] exI [of _ p] exI [of _ h]) simp
qed

theorem snapshot_lists_default_to_empty_witness:
  "getAllDashboardData
       (Inr (realTimeMetrics mockData))
       (Inr (executeGraphQLQuery mockData (\<lambda>i. 1 / 2) (\<lambda>i. 1 / 2) [] ''query Other { other }''))
       (Inr \<lparr>gql_data = Some \<lparr>gql_varHistory = Some [], gql_sectorExposure = None\<rparr>\<rparr>)
       (Inr \<lparr>statusCode = 200, body = Some (RiskCalculation [] 50 ''HOLD'')\<rparr>)
       (Inr \<lparr>statusCode = 200, body = None\<rparr>)
       (Inr \<lparr>inherited = [], lastChecked = [], services = []\<rparr>)
     = Inr \<lparr>metrics = realTimeMetrics mockData, varHistory = [], sectorExposure = [],
            riskAlerts = [], portfolioBreakdown = [],
            systemHealth = \<lparr>inherited = [], lastChecked = [], services = []\<rparr>\<rparr>
   \<and> gql_data (executeGraphQLQuery mockData (\<lambda>i. 1 / 2) (\<lambda>i. 1 / 2) [] ''query Other { other }'')
       = None"
proof -
  let ?v = "executeGraphQLQuery mockData (\<lambda>i. 1 / 2) (\<lambda>i. 1 / 2) [] ''query Other { other }''"
  let ?snap = "\<lparr>metrics = realTimeMetrics mockData, varHistory = [], sectorExposure = [],
            riskAlerts = [], portfolioBreakdown = [],
            systemHealth = \<lparr>inherited = [], lastChecked = [], services = []\<rparr>\<rparr>"
  have v: "?v = \<lparr>gql_data = None\<rparr>"
    by (simp add: executeGraphQLQuery_def)
  have hyp: "getAllDashboardData
       (Inr (realTimeMetrics mockData)) (Inr ?v)
       (Inr \<lparr>gql_data = Some \<lparr>gql_varHistory = Some [], gql_sectorExposure = None\<rparr>\<rparr>)
       (Inr \<lparr>statusCode = 200, body = Some (RiskCalculation [] 50 ''HOLD'')\<rparr>)
       (Inr \<lparr>statusCode = 200, body = None\<rparr>)
       (Inr \<lparr>inherited = [], lastChecked = [], services = []\<rparr>) = Inr ?snap"
    unfolding v
    by (simp add: getAllDashboardData_def or_empty_def data_varHistory_def
        data_sectorExposure_def body_alerts_def body_analysis_def)
  from snapshot_lists_default_to_empty [OF hyp] hyp v show ?thesis by simp
qed

lemma onRiskAlert_count: "alert_count (onRiskAlert now isoNow clock message st) \<le> 10"
  by (simp add: onRiskAlert_def alert_count_def Let_def split: option.splits)

lemma onRiskAlerts_keeps_cap:
  "alert_count st \<le> 10 \<Longrightarrow> alert_count (onRiskAlerts evs st) \<le> 10"
proof (induction evs st rule: onRiskAlerts.induct)
  case (1 st)
  then show ?case by simp
next
  case (2 now isoNow clock message evs st)
  show ?case using "2.IH" [OF onRiskAlert_count] by simp
qed

text \<open>
  Claim C7. From every state of the hook and for every burst of \<open>risk_alerts\<close> messages,
  after each message of the burst has been processed (that is, after every non-empty
  initial part of the burst) the alert list has at most 10 elements.
\<close>

theorem alert_list_capped:
  assumes "0 < n" and "n \<le> length evs"
  shows "alert_count (onRiskAlerts (take n evs) st) \<le> 10"
proof -
  from assms obtain e rest where tk: "take n evs = e # rest"
    by (cases "take n evs") auto
  obtain now isoNow clock message where e: "e = (now, isoNow, clock, message)"
    by (cases e) auto
  have "alert_count (onRiskAlerts rest (onRiskAlert now isoNow clock message st)) \<le> 10"
    by (rule onRiskAlerts_keeps_cap [OF onRiskAlert_count])
  then show ?thesis by (simp add: tk e)
qed

theorem alert_list_capped_witness:
  "(0::nat) < 2
   \<and> 2 \<le> length
         [(1000 :: int, ''2025-01-01T00:00:01.000Z'', ''00:00:01'',
           mkMessage ''risk_alerts'' 0 1000 ''2025-01-01T00:00:01.000Z''
             \<lparr>ev_symbol = ''TSLA'', alertType = ''Position Limit Breach'',
              ev_severity = ''HIGH'', ev_description = ''limit''\<rparr>),
          (2000, ''2025-01-01T00:00:02.000Z'', ''00:00:02'',
           mkMessage ''risk_alerts'' 3 2000 ''2025-01-01T00:00:02.000Z''
             \<lparr>ev_symbol = ''NVDA'', alertType = ''Volatility Spike'',
              ev_severity = ''MEDIUM'', ev_description = ''spike''\<rparr>)]
   \<and> alert_count
        (initial_state\<lparr>data := Some
           \<lparr>metrics = realTimeMetrics mockData, varHistory = [], sectorExposure = [],
            riskAlerts = md_riskAlerts mockData @ md_riskAlerts mockData @ md_riskAlerts mockData,
            portfolioBreakdown = [],
            systemHealth = \<lparr>inherited = [], lastChecked = [], services = []\<rparr>\<rparr>\<rparr>) = 12
   \<and> alert_count (onRiskAlerts (take 2
         [(1000 :: int, ''2025-01-01T00:00:01.000Z'', ''00:00:01'',
           mkMessage ''risk_alerts'' 0 1000 ''2025-01-01T00:00:01.000Z''
             \<lparr>ev_symbol = ''TSLA'', alertType = ''Position Limit Breach'',
              ev_severity = ''HIGH'', ev_description = ''limit''\<rparr>),
          (2000, ''2025-01-01T00:00:02.000Z'', ''00:00:02'',
           mkMessage ''risk_alerts'' 3 2000 ''2025-01-01T00:00:02.000Z''
             \<lparr>ev_symbol = ''NVDA'', alertType = ''Volatility Spike'',
              ev_severity = ''MEDIUM'', ev_description = ''spike''\<rparr>)])
        (initial_state\<lparr>data := Some
           \<lparr>metrics = realTimeMetrics mockData, varHistory = [], sectorExposure = [],
            riskAlerts = md_riskAlerts mockData @ md_riskAlerts mockData @ md_riskAlerts mockData,
            portfolioBreakdown = [],
            systemHealth = \<lparr>inherited = [], lastChecked = [], services = []\<rparr>\<rparr>\<rparr>)) \<le> 10"
proof -
  let ?evs = "[(1000 :: int, ''2025-01-01T00:00:01.000Z'', ''00:00:01'',
           mkMessage ''risk_alerts'' 0 1000 ''2025-01-01T00:00:01.000Z''
             \<lparr>ev_symbol = ''TSLA'', alertType = ''Position Limit Breach'',
              ev_severity = ''HIGH'', ev_description = ''limit''\<rparr>),
          (2000, ''2025-01-01T00:00:02.000Z'', ''00:00:02'',
           mkMessage ''risk_alerts'' 3 2000 ''2025-01-01T00:00:02.000Z''
             \<lparr>ev_symbol = ''NVDA'', alertType = ''Volatility Spike'',
              ev_severity = ''MEDIUM'', ev_description = ''spike''\<rparr>)]"
  let ?st = "initial_state\<lparr>data := Some
           \<lparr>metrics = realTimeMetrics mockData, varHistory = [], sectorExposure = [],
            riskAlerts = md_riskAlerts mockData @ md_riskAlerts mockData @ md_riskAlerts mockData,
            portfolioBreakdown = [],
            systemHealth = \<lparr>inherited = [], lastChecked = [], services = []\<rparr>\<rparr>\<rparr>"
  have h1: "(0::nat) < 2" by simp
  have h2: "2 \<le> length ?evs" by simp
  have c: "alert_count ?st = 12" by (simp add: alert_count_def mockData_def)
  from alert_list_capped [OF h1 h2, of ?st] h1 h2 c show ?thesis by blast
qed

text \<open>
  Claim C8. A run of the metrics refresh whose \<open>fetchRealTimeMetrics()\<close> is rejected leaves
  the whole state of the hook as it was: the metrics of the snapshot, every other field
  of the snapshot, and the other state variables.
\<close>

theorem metrics_refresh_failure_keeps_snapshot:
  "metricsTick (Inl err) now st = st"
  by (simp add: metricsTick_def)

end
